theory Spec2Isabelle
  imports Main "HOL-Library.Word"
begin

section \<open>The stub layer of \<^verbatim>\<open>fakelibc.c\<close>\<close>

text \<open>
  \<^verbatim>\<open>fakelibc.c\<close> is a replacement C library: most routines fault through
  \<^verbatim>\<open>panic_c\<close>, a few are empty, and the formatted-output routines drive an
  external format parser. The embedding makes the effects explicit:
  \<^item> the global state the file owns is the variable \<^verbatim>\<open>errno\<close>; it is the field of
    the record \<open>world\<close>, and every routine takes the world and returns it. The
    record is extensible, so a routine typed on \<open>'w world_scheme\<close> is also a
    statement about whatever other state the extension holds;
  \<^item> a call that does not return (\<^verbatim>\<open>panic_c\<close>, a fault of the parser) is the
    left injection of a sum, \<open>fault + 'a\<close>;
  \<^item> a C function declared \<^verbatim>\<open>int\<close> whose body has no \<^verbatim>\<open>return\<close> statement hands
    no value back: its result is \<open>None\<close>, a returned value \<open>v\<close> is \<open>Some v\<close>;
  \<^item> the headers that fix the widths of \<^verbatim>\<open>int\<close>, \<^verbatim>\<open>size_t\<close> and \<^verbatim>\<open>mode_t\<close> are not
    among the sources; the target is taken to be 32-bit, so that a \<^verbatim>\<open>size_t\<close>
    passes unchanged into the \<^verbatim>\<open>uint32_t\<close> parameter of
    \<^verbatim>\<open>printf_parser_new_with_buf\<close>. A string argument is the string pointed to, a
    \<^verbatim>\<open>double\<close> its 64 bits.
\<close>

type_synonym int32 = "32 word"
type_synonym uint32 = "32 word"
type_synonym size_t = "32 word"
type_synonym mode_t = "32 word"
type_synonym double = "64 word"
type_synonym byte = "8 word"

datatype FILE = stdout | stderr | stdin

datatype fault =
    Panic string
  | FormatSyntaxError
  | UnsupportedConversion
  | ArgumentExhausted

record world =
  errno :: int32

text \<open>\<^verbatim>\<open>int errno = 0;\<close>\<close>

definition initial_world :: world where
  "initial_world = \<lparr>errno = 0\<rparr>"

text \<open>
  Modelled from the spec: \<^verbatim>\<open>panic_c\<close> is declared in \<^verbatim>\<open>fakelibc.c\<close> and defined
  outside the given sources. The spec calls a routine that reaches it an explicit
  fault that never degrades silently: the call does not return, and the fault
  carries the message.
\<close>

definition panic_c :: "string \<Rightarrow> fault + 'a" where
  "panic_c msg = Inl (Panic msg)"

definition mkdir :: "'w world_scheme \<Rightarrow> string \<Rightarrow> mode_t \<Rightarrow> fault + 'w world_scheme \<times> int32 option" where
  "mkdir w path mode = Inr (w, None)"

definition strstr :: "'w world_scheme \<Rightarrow> string \<Rightarrow> string \<Rightarrow> fault + 'w world_scheme \<times> string option" where
  "strstr w haystack needle = panic_c ''strstr unimplemented''"

definition strchr :: "'w world_scheme \<Rightarrow> string \<Rightarrow> int32 \<Rightarrow> fault + 'w world_scheme \<times> string option" where
  "strchr w s c = panic_c ''strchr unimplemented''"

definition strrchr :: "'w world_scheme \<Rightarrow> string \<Rightarrow> int32 \<Rightarrow> fault + 'w world_scheme \<times> string option" where
  "strrchr w s c = panic_c ''strrchr unimplemented''"

definition atoi :: "'w world_scheme \<Rightarrow> string \<Rightarrow> fault + 'w world_scheme \<times> int32 option" where
  "atoi w nptr = panic_c ''atoi unimplemented''"

definition atof :: "'w world_scheme \<Rightarrow> string \<Rightarrow> fault + 'w world_scheme \<times> double option" where
  "atof w nptr = panic_c ''atof unimplemented''"

definition abs_c :: "'w world_scheme \<Rightarrow> int32 \<Rightarrow> fault + 'w world_scheme \<times> int32 option" where
  "abs_c w j = panic_c ''abs unimplemented''"

definition exit :: "'w world_scheme \<Rightarrow> int32 \<Rightarrow> fault + 'w world_scheme \<times> unit option" where
  "exit w status = panic_c ''exit unimplemented''"

definition system :: "'w world_scheme \<Rightarrow> string \<Rightarrow> fault + 'w world_scheme \<times> int32 option" where
  "system w command = Inr (w, Some 1)"

definition fprintf :: "'w world_scheme \<Rightarrow> FILE \<Rightarrow> string \<Rightarrow> 'v \<Rightarrow> fault + 'w world_scheme \<times> int32 option" where
  "fprintf w stream format args = panic_c ''fprintf unimplemented''"

definition rename :: "'w world_scheme \<Rightarrow> string \<Rightarrow> string \<Rightarrow> fault + 'w world_scheme \<times> int32 option" where
  "rename w old new = panic_c ''rename unimplemented''"

definition remove_c :: "'w world_scheme \<Rightarrow> string \<Rightarrow> fault + 'w world_scheme \<times> int32 option" where
  "remove_c w pathname = panic_c ''remove unimplemented''"

definition fflush :: "'w world_scheme \<Rightarrow> FILE \<Rightarrow> fault + 'w world_scheme \<times> int32 option" where
  "fflush w stream = Inr (w, None)"

definition sscanf :: "'w world_scheme \<Rightarrow> string \<Rightarrow> string \<Rightarrow> 'v \<Rightarrow> fault + 'w world_scheme \<times> int32 option" where
  "sscanf w str format args = panic_c ''sscanf unimplemented''"

definition fabs :: "'w world_scheme \<Rightarrow> double \<Rightarrow> fault + 'w world_scheme \<times> double option" where
  "fabs w x = panic_c ''fabs unimplemented''"

definition isspace :: "'w world_scheme \<Rightarrow> int32 \<Rightarrow> fault + 'w world_scheme \<times> int32 option" where
  "isspace w c = panic_c ''isspace unimplemented''"

section \<open>The formatted-output path\<close>

text \<open>
  The parser (\<^verbatim>\<open>struct PrintfParser\<close> and the five \<^verbatim>\<open>printf_parser_*\<close> routines)
  and the macro \<^verbatim>\<open>va_arg_ptr\<close> are declared or used in \<^verbatim>\<open>fakelibc.c\<close> and defined
  elsewhere. The C code is embedded over any implementation of them: \<open>'p\<close> is the
  state of a parser (with everything it writes to: the console, the caller's
  buffer), \<open>'v\<close> a \<^verbatim>\<open>va_list\<close>, \<open>'a\<close> what \<^verbatim>\<open>va_arg_ptr\<close> hands back. Each of them
  may fault instead of returning.
\<close>

record ('p, 'v, 'a) extern =
  printf_parser_new :: "string \<Rightarrow> fault + 'p"
  printf_parser_new_with_buf :: "string \<Rightarrow> string \<Rightarrow> uint32 \<Rightarrow> fault + 'p"
  printf_parser_free :: "'p \<Rightarrow> fault + 'p"
  printf_parser_push_arg :: "'p \<Rightarrow> 'a \<Rightarrow> fault + 'p"
  printf_parser_advance :: "'p \<Rightarrow> fault + int32 \<times> 'p"
  va_arg_ptr :: "'v \<Rightarrow> int32 \<Rightarrow> fault + 'a \<times> 'v"

text \<open>
  The calls \<^verbatim>\<open>do_printf\<close> makes, in order, each with what it returned
  (\<open>None\<close> and \<open>False\<close>: the call faulted).
\<close>

datatype 'a event =
    Advance "int32 option"
  | VaArg int32 "'a option"
  | PushArg 'a bool

text \<open>
  \<^verbatim>\<open>do_printf\<close>: the \<^verbatim>\<open>while (true)\<close> loop. Nothing in the C code bounds the
  number of passes, so the function takes fuel, one unit per pass; out of fuel the
  outcome is \<open>None\<close> and the trace holds the calls made so far. \<open>Some (Inr
  (parser, args))\<close> is the normal return (the function is \<^verbatim>\<open>void\<close>), with the parser
  and the argument list as the loop left them.
\<close>

fun do_printf ::
  "nat \<Rightarrow> ('p, 'v, 'a, 'x) extern_scheme \<Rightarrow> 'p \<Rightarrow> string \<Rightarrow> 'v
    \<Rightarrow> 'a event list \<times> (fault + 'p \<times> 'v) option" where
  "do_printf 0 ext parser format args = ([], None)"
| "do_printf (Suc fuel) ext parser format args =
     (case printf_parser_advance ext parser of
        Inl e \<Rightarrow> ([Advance None], Some (Inl e))
      | Inr (arg_size, parser1) \<Rightarrow>
          if arg_size = 0 then ([Advance (Some arg_size)], Some (Inr (parser1, args)))
          else
            (case va_arg_ptr ext args arg_size of
               Inl e \<Rightarrow> ([Advance (Some arg_size), VaArg arg_size None], Some (Inl e))
             | Inr (arg, args1) \<Rightarrow>
                 (case printf_parser_push_arg ext parser1 arg of
                    Inl e \<Rightarrow>
                      ([Advance (Some arg_size), VaArg arg_size (Some arg), PushArg arg False],
                       Some (Inl e))
                  | Inr parser2 \<Rightarrow>
                      (case do_printf fuel ext parser2 format args1 of
                         (tr, r) \<Rightarrow>
                           (Advance (Some arg_size) # VaArg arg_size (Some arg)
                              # PushArg arg True # tr, r)))))"

text \<open>
  The four entry points. None of their bodies has a \<^verbatim>\<open>return\<close> statement, so the
  returned value is \<open>None\<close>. The result also holds the parser as
  \<^verbatim>\<open>printf_parser_free\<close> left it: it stands for what the parser wrote (the text on
  the console, the caller's buffer). \<^verbatim>\<open>vfprintf\<close> does not use its stream.
  \<^verbatim>\<open>va_start\<close> hands the variadic arguments over as the \<^verbatim>\<open>va_list\<close>; the
  parameter \<^verbatim>\<open>size\<close> is written \<open>sz\<close>.
\<close>

definition vfprintf ::
  "nat \<Rightarrow> ('p, 'v, 'a, 'x) extern_scheme \<Rightarrow> 'w world_scheme \<Rightarrow> FILE \<Rightarrow> string \<Rightarrow> 'v
    \<Rightarrow> (fault + 'w world_scheme \<times> 'p \<times> int32 option) option" where
  "vfprintf fuel ext w stream format args =
     (case printf_parser_new ext format of
        Inl e \<Rightarrow> Some (Inl e)
      | Inr parser \<Rightarrow>
          (case snd (do_printf fuel ext parser format args) of
             None \<Rightarrow> None
           | Some (Inl e) \<Rightarrow> Some (Inl e)
           | Some (Inr (parser1, args1)) \<Rightarrow>
               (case printf_parser_free ext parser1 of
                  Inl e \<Rightarrow> Some (Inl e)
                | Inr parser2 \<Rightarrow> Some (Inr (w, parser2, None)))))"

definition vsnprintf ::
  "nat \<Rightarrow> ('p, 'v, 'a, 'x) extern_scheme \<Rightarrow> 'w world_scheme \<Rightarrow> string \<Rightarrow> size_t \<Rightarrow> string \<Rightarrow> 'v
    \<Rightarrow> (fault + 'w world_scheme \<times> 'p \<times> int32 option) option" where
  "vsnprintf fuel ext w str sz format args =
     (case printf_parser_new_with_buf ext format str sz of
        Inl e \<Rightarrow> Some (Inl e)
      | Inr parser \<Rightarrow>
          (case snd (do_printf fuel ext parser format args) of
             None \<Rightarrow> None
           | Some (Inl e) \<Rightarrow> Some (Inl e)
           | Some (Inr (parser1, args1)) \<Rightarrow>
               (case printf_parser_free ext parser1 of
                  Inl e \<Rightarrow> Some (Inl e)
                | Inr parser2 \<Rightarrow> Some (Inr (w, parser2, None)))))"

definition printf ::
  "nat \<Rightarrow> ('p, 'v, 'a, 'x) extern_scheme \<Rightarrow> 'w world_scheme \<Rightarrow> string \<Rightarrow> 'v
    \<Rightarrow> (fault + 'w world_scheme \<times> 'p \<times> int32 option) option" where
  "printf fuel ext w format args =
     (case vfprintf fuel ext w stdout format args of
        None \<Rightarrow> None
      | Some (Inl e) \<Rightarrow> Some (Inl e)
      | Some (Inr (w1, parser, r)) \<Rightarrow> Some (Inr (w1, parser, None)))"

definition snprintf ::
  "nat \<Rightarrow> ('p, 'v, 'a, 'x) extern_scheme \<Rightarrow> 'w world_scheme \<Rightarrow> string \<Rightarrow> size_t \<Rightarrow> string \<Rightarrow> 'v
    \<Rightarrow> (fault + 'w world_scheme \<times> 'p \<times> int32 option) option" where
  "snprintf fuel ext w buf sz format args =
     (case vsnprintf fuel ext w buf sz format args of
        None \<Rightarrow> None
      | Some (Inl e) \<Rightarrow> Some (Inl e)
      | Some (Inr (w1, parser, r)) \<Rightarrow> Some (Inr (w1, parser, None)))"

text \<open>
  The orchestrator as the specification words it: call \<open>advance\<close>; if the result is
  \<open>0\<close>, stop; otherwise pull that many bytes from the argument cursor, call
  \<open>push_argument\<close> with them, and repeat. A fault of a callee ends the call at
  once. \<open>Orchestrator ext p v tr out\<close> holds when the trace \<open>tr\<close> and the outcome
  \<open>out\<close> are those of this loop started on parser \<open>p\<close> and arguments \<open>v\<close>; the
  empty trace with no outcome is a loop cut off between two passes.
\<close>

fun Orchestrator ::
  "('p, 'v, 'a, 'x) extern_scheme \<Rightarrow> 'p \<Rightarrow> 'v \<Rightarrow> 'a event list
    \<Rightarrow> (fault + 'p \<times> 'v) option \<Rightarrow> bool" where
  "Orchestrator ext p v [] out = (out = None)"
| "Orchestrator ext p v (Advance r # tr) out =
     (case printf_parser_advance ext p of
        Inl e \<Rightarrow> r = None \<and> tr = [] \<and> out = Some (Inl e)
      | Inr (n, p1) \<Rightarrow>
          r = Some n \<and>
          (if n = 0 then tr = [] \<and> out = Some (Inr (p1, v))
           else
             (case tr of
                VaArg m pulled # tr1 \<Rightarrow>
                  m = n \<and>
                  (case va_arg_ptr ext v n of
                     Inl e \<Rightarrow> pulled = None \<and> tr1 = [] \<and> out = Some (Inl e)
                   | Inr (a, v1) \<Rightarrow>
                       pulled = Some a \<and>
                       (case tr1 of
                          PushArg b ok # tr2 \<Rightarrow>
                            b = a \<and>
                            (case printf_parser_push_arg ext p1 a of
                               Inl e \<Rightarrow> \<not> ok \<and> tr2 = [] \<and> out = Some (Inl e)
                             | Inr p2 \<Rightarrow> ok \<and> Orchestrator ext p2 v1 tr2 out)
                        | _ \<Rightarrow> False))
              | _ \<Rightarrow> False)))"
| "Orchestrator ext p v (_ # tr) out = False"

text \<open>
  The same protocol as a shape of the trace: a sequence of complete rounds, each an
  advance that returned a non-zero size, the pull of that size and the push of what
  was pulled, followed by a closing part that depends on the outcome: nothing when
  the observation was cut off, the advance that returned \<open>0\<close> on a normal return,
  and the round cut short by the faulting call otherwise.
\<close>

definition round_events :: "int32 \<times> 'a \<Rightarrow> 'a event list" where
  "round_events r = [Advance (Some (fst r)), VaArg (fst r) (Some (snd r)), PushArg (snd r) True]"

fun closing :: "'a event list \<Rightarrow> (fault + 'p \<times> 'v) option \<Rightarrow> bool" where
  "closing rest None = (rest = [])"
| "closing rest (Some (Inr r)) = (rest = [Advance (Some 0)])"
| "closing rest (Some (Inl e)) =
     (case rest of
        [Advance None] \<Rightarrow> True
      | [Advance (Some n), VaArg k None] \<Rightarrow> n \<noteq> 0 \<and> k = n
      | [Advance (Some n), VaArg k (Some a), PushArg b False] \<Rightarrow> n \<noteq> 0 \<and> k = n \<and> b = a
      | _ \<Rightarrow> False)"

text \<open>
  A scripted stand-in for the parser, to run the C code on concrete inputs: its
  state is the list of sizes it will still ask for, and the argument list is a
  list of byte strings handed out one per request.
\<close>

definition scripted :: "(int32 list, byte list list, byte list) extern" where
  "scripted =
     \<lparr>printf_parser_new = (\<lambda>format. Inr []),
      printf_parser_new_with_buf = (\<lambda>format buf sz. Inr []),
      printf_parser_free = Inr,
      printf_parser_push_arg = (\<lambda>p a. Inr p),
      printf_parser_advance = (\<lambda>p. case p of [] \<Rightarrow> Inr (0, []) | n # ns \<Rightarrow> Inr (n, ns)),
      va_arg_ptr = (\<lambda>v n. case v of [] \<Rightarrow> Inl ArgumentExhausted | a # v' \<Rightarrow> Inr (a, v'))\<rparr>"



section \<open>The format parser, modelled from the specification\<close>

text \<open>
  Modelled from the spec: the format parser (\<^verbatim>\<open>printf_parser_new\<close>,
  \<^verbatim>\<open>printf_parser_new_with_buf\<close>, \<^verbatim>\<open>printf_parser_free\<close>, \<^verbatim>\<open>printf_parser_push_arg\<close>,
  \<^verbatim>\<open>printf_parser_advance\<close>) and the macro \<^verbatim>\<open>va_arg_ptr\<close> are missing from the
  sources. The definitions of this section follow sections 3 and 4 of the
  specification: the output sink, the argument cursor and the parser with its two
  operations \<open>advance\<close> and \<open>push_argument\<close>. Where the specification leaves a
  detail open (the characters of the directive grammar, the widths of the target's
  types, a negative width or precision taken from an argument), the model follows
  C's \<^verbatim>\<open>printf\<close> on a 32-bit little-endian target.
\<close>

subsection \<open>OutputSink\<close>

datatype sink_kind = Unbounded | Bounded nat

text \<open>
  Modelled from the spec: the output sink of the missing parser (sections 3 and
  4.3), unbounded or bounded by a capacity. \<open>store\<close> is where the bytes go: the
  text sent to the console for an unbounded sink, the image of the caller's buffer
  for a bounded one.
\<close>

record OutputSink =
  kind :: sink_kind
  store :: string
  written :: nat
  logical_length :: nat
  truncated :: bool

definition terminator :: char where
  "terminator = CHR 0x00"

text \<open>
  \<open>poke at bytes buf\<close> overwrites \<open>buf\<close> from offset \<open>at\<close> with \<open>bytes\<close>; the
  sink only calls it with \<open>at + length bytes \<le> length buf\<close> when the buffer has at
  least the stated capacity.
\<close>

definition poke :: "nat \<Rightarrow> string \<Rightarrow> string \<Rightarrow> string" where
  "poke at bytes buf = take at buf @ bytes @ drop (at + length bytes) buf"

text \<open>Modelled from the spec: the two sinks before the first write.\<close>

definition OutputSink_unbounded :: OutputSink where
  "OutputSink_unbounded =
     \<lparr>kind = Unbounded, store = [], written = 0, logical_length = 0, truncated = False\<rparr>"

definition OutputSink_bounded :: "string \<Rightarrow> nat \<Rightarrow> OutputSink" where
  "OutputSink_bounded buf capacity =
     \<lparr>kind = Bounded capacity,
      store = (if 0 < capacity then poke 0 [terminator] buf else buf),
      written = 0, logical_length = 0, truncated = False\<rparr>"

text \<open>
  Modelled from the spec: \<open>write\<close> (section 4.3). The unbounded sink appends all
  bytes. The bounded sink always adds the length of the bytes to its logical
  length, keeps only what fits below \<open>capacity - 1\<close>, flags a truncation when bytes
  were dropped, and puts the terminator right after the last content byte when the
  capacity is not zero; a new bounded sink already has it at offset 0.
\<close>

definition OutputSink_write :: "OutputSink \<Rightarrow> string \<Rightarrow> OutputSink" where
  "OutputSink_write s bytes =
     (case kind s of
        Unbounded \<Rightarrow>
          s\<lparr>store := store s @ bytes,
            written := written s + length bytes,
            logical_length := logical_length s + length bytes\<rparr>
      | Bounded capacity \<Rightarrow>
          (let kept = take (capacity - 1 - written s) bytes in
           s\<lparr>store := (if 0 < capacity then poke (written s) (kept @ [terminator]) (store s)
                        else store s),
             written := written s + length kept,
             logical_length := logical_length s + length bytes,
             truncated := (truncated s \<or> length kept < length bytes)\<rparr>))"

subsection \<open>ArgumentCursor\<close>

text \<open>
  Modelled from the spec: the argument cursor (section 4.2) stands for the
  \<^verbatim>\<open>va_list\<close> and the missing macro \<^verbatim>\<open>va_arg_ptr\<close>. It holds the caller's arguments
  in call order, each as its raw bytes (least significant first). \<open>pull\<close> hands
  out exactly the requested number of bytes of the next argument (a shorter value
  is zero-extended) and moves on; with no argument left it fails with
  \<open>ArgumentExhausted\<close>.
\<close>

type_synonym ArgumentCursor = "byte list list"

definition ArgumentCursor_pull :: "ArgumentCursor \<Rightarrow> nat \<Rightarrow> fault + byte list \<times> ArgumentCursor" where
  "ArgumentCursor_pull args n_bytes =
     (case args of
        [] \<Rightarrow> Inl ArgumentExhausted
      | arg # rest \<Rightarrow> Inr (take n_bytes (arg @ replicate n_bytes 0), rest))"

subsection \<open>FormatParser: the data model\<close>

text \<open>
  Modelled from the spec: the state of the missing parser (section 3): the flags,
  width, precision, length modifier and conversion kind of a directive with the
  byte width of the argument it needs; the mode; the pending directive; the queue
  of width and precision requests to be answered from arguments.
\<close>

record flag_set =
  left_justify :: bool
  zero_pad :: bool
  force_sign :: bool
  space_for_positive :: bool
  alternate_form :: bool

datatype field_number = Literal nat | FromArgument

datatype length_modifier =
  LenChar | LenShort | LenInt | LenLong | LenLongLong | LenSize | LenPointer

datatype conversion_kind =
    SignedInt | UnsignedInt | Octal | HexLower | HexUpper
  | FloatFixed | FloatExp | FloatGeneral
  | StringConv | CharConv | PointerConv | PercentLiteral | CountOut

record directive =
  flags :: flag_set
  width :: field_number
  precision :: "field_number option"
  length_mod :: length_modifier
  conversion :: conversion_kind
  arg_width :: nat

datatype mode = Scanning | AwaitingArgument

datatype side_request = WidthRequest | PrecisionRequest

record FormatParser =
  format_string :: string
  cursor :: nat
  mode :: mode
  pending_directive :: "directive option"
  side_channel_queue :: "side_request list"
  sink :: OutputSink

text \<open>
  Modelled from the spec: what rendering needs from outside the parser: the memory a \<open>%s\<close> argument
  points into, and the decimal text of a floating-point argument (floating-point
  rendering is taken as given, not modelled).
\<close>

record machine =
  c_string_at :: "nat \<Rightarrow> string"
  float_text :: "conversion_kind \<Rightarrow> flag_set \<Rightarrow> nat option \<Rightarrow> byte list \<Rightarrow> string"

subsection \<open>FormatParser: the directive grammar\<close>

text \<open>
  Modelled from the spec: the directive grammar of section 4.1, which the missing
  parser reads after a \<open>%\<close>: flags, then a width (digits or \<open>*\<close>), then \<open>.\<close> and a
  precision (digits, \<open>*\<close> or nothing), then a length modifier, then the conversion
  character. The characters are those of C's \<^verbatim>\<open>printf\<close>. Each function returns what
  it read and the text after it.
\<close>

definition no_flags :: flag_set where
  "no_flags =
     \<lparr>left_justify = False, zero_pad = False, force_sign = False,
      space_for_positive = False, alternate_form = False\<rparr>"

fun parse_flags :: "string \<Rightarrow> flag_set \<Rightarrow> flag_set \<times> string" where
  "parse_flags [] f = (f, [])"
| "parse_flags (c # cs) f =
     (if c = CHR ''-'' then parse_flags cs (f\<lparr>left_justify := True\<rparr>)
      else if c = CHR ''0'' then parse_flags cs (f\<lparr>zero_pad := True\<rparr>)
      else if c = CHR ''+'' then parse_flags cs (f\<lparr>force_sign := True\<rparr>)
      else if c = CHR '' '' then parse_flags cs (f\<lparr>space_for_positive := True\<rparr>)
      else if c = CHR ''#'' then parse_flags cs (f\<lparr>alternate_form := True\<rparr>)
      else (f, c # cs))"

definition is_digit :: "char \<Rightarrow> bool" where
  "is_digit c = (c \<in> set ''0123456789'')"

definition digit_value :: "char \<Rightarrow> nat" where
  "digit_value c = of_char c - 48"

fun parse_digits :: "string \<Rightarrow> nat \<Rightarrow> nat \<times> string" where
  "parse_digits [] n = (n, [])"
| "parse_digits (c # cs) n =
     (if is_digit c then parse_digits cs (10 * n + digit_value c) else (n, c # cs))"

definition parse_width :: "string \<Rightarrow> field_number \<times> string" where
  "parse_width s =
     (case s of
        [] \<Rightarrow> (Literal 0, [])
      | c # cs \<Rightarrow>
          if c = CHR ''*'' then (FromArgument, cs)
          else (case parse_digits s 0 of (n, r) \<Rightarrow> (Literal n, r)))"

definition parse_precision :: "string \<Rightarrow> field_number option \<times> string" where
  "parse_precision s =
     (case s of
        [] \<Rightarrow> (None, [])
      | c # cs \<Rightarrow>
          if c = CHR ''.'' then
            (case cs of
               [] \<Rightarrow> (Some (Literal 0), [])
             | d # ds \<Rightarrow>
                 if d = CHR ''*'' then (Some FromArgument, ds)
                 else (case parse_digits cs 0 of (n, r) \<Rightarrow> (Some (Literal n), r)))
          else (None, s))"

text \<open>\<open>None\<close>: the \<^verbatim>\<open>long double\<close> modifier, which is unsupported.\<close>

definition parse_length :: "string \<Rightarrow> length_modifier option \<times> string" where
  "parse_length s =
     (case s of
        [] \<Rightarrow> (Some LenInt, [])
      | c # cs \<Rightarrow>
          if c = CHR ''h'' then
            (case cs of
               [] \<Rightarrow> (Some LenShort, cs)
             | d # ds \<Rightarrow> if d = CHR ''h'' then (Some LenChar, ds) else (Some LenShort, cs))
          else if c = CHR ''l'' then
            (case cs of
               [] \<Rightarrow> (Some LenLong, cs)
             | d # ds \<Rightarrow> if d = CHR ''l'' then (Some LenLongLong, ds) else (Some LenLong, cs))
          else if c = CHR ''z'' then (Some LenSize, cs)
          else if c = CHR ''t'' then (Some LenPointer, cs)
          else if c = CHR ''L'' then (None, cs)
          else (Some LenInt, s))"

definition conversion_of :: "char \<Rightarrow> conversion_kind option" where
  "conversion_of c =
     (if c = CHR ''d'' \<or> c = CHR ''i'' then Some SignedInt
      else if c = CHR ''u'' then Some UnsignedInt
      else if c = CHR ''o'' then Some Octal
      else if c = CHR ''x'' then Some HexLower
      else if c = CHR ''X'' then Some HexUpper
      else if c = CHR ''f'' then Some FloatFixed
      else if c = CHR ''e'' then Some FloatExp
      else if c = CHR ''g'' then Some FloatGeneral
      else if c = CHR ''s'' then Some StringConv
      else if c = CHR ''c'' then Some CharConv
      else if c = CHR ''p'' then Some PointerConv
      else if c = CHR ''%'' then Some PercentLiteral
      else if c = CHR ''n'' then Some CountOut
      else None)"

text \<open>
  Modelled from the spec: the byte width of the argument a conversion asks for
  (section 4.1), after the default argument promotions: \<^verbatim>\<open>char\<close> and \<^verbatim>\<open>short\<close> arrive as \<^verbatim>\<open>int\<close>, every
  floating-point value as \<^verbatim>\<open>double\<close>. On the 32-bit target \<^verbatim>\<open>int\<close>, \<^verbatim>\<open>long\<close>,
  \<^verbatim>\<open>size_t\<close> and pointers take 4 bytes, \<^verbatim>\<open>long long\<close> and \<^verbatim>\<open>double\<close> 8.
\<close>

definition int_width :: nat where
  "int_width = 4"

definition pointer_width :: nat where
  "pointer_width = 4"

definition double_width :: nat where
  "double_width = 8"

definition long_width :: nat where
  "long_width = 4"

definition long_long_width :: nat where
  "long_long_width = 8"

definition size_width :: nat where
  "size_width = 4"

definition integer_width :: "length_modifier \<Rightarrow> nat" where
  "integer_width l =
     (case l of
        LenChar \<Rightarrow> int_width
      | LenShort \<Rightarrow> int_width
      | LenInt \<Rightarrow> int_width
      | LenLong \<Rightarrow> long_width
      | LenLongLong \<Rightarrow> long_long_width
      | LenSize \<Rightarrow> size_width
      | LenPointer \<Rightarrow> pointer_width)"

definition argument_width :: "conversion_kind \<Rightarrow> length_modifier \<Rightarrow> nat" where
  "argument_width k l =
     (case k of
        SignedInt \<Rightarrow> integer_width l
      | UnsignedInt \<Rightarrow> integer_width l
      | Octal \<Rightarrow> integer_width l
      | HexLower \<Rightarrow> integer_width l
      | HexUpper \<Rightarrow> integer_width l
      | FloatFixed \<Rightarrow> double_width
      | FloatExp \<Rightarrow> double_width
      | FloatGeneral \<Rightarrow> double_width
      | StringConv \<Rightarrow> pointer_width
      | CharConv \<Rightarrow> int_width
      | PointerConv \<Rightarrow> pointer_width
      | PercentLiteral \<Rightarrow> 0
      | CountOut \<Rightarrow> pointer_width)"

text \<open>
  Modelled from the spec: \<open>parse_directive\<close> reads what follows a \<open>%\<close>: flags, width, precision, length
  modifier, conversion character, in this order. It returns the directive and the
  text after it. A directive cut off by the end of the string, or a flag, digit,
  \<open>*\<close> or \<open>.\<close> out of place, is a syntax error; any other unknown conversion
  character is an unsupported conversion.
\<close>

definition parse_directive :: "string \<Rightarrow> fault + directive \<times> string" where
  "parse_directive s =
     (case parse_flags s no_flags of (f, s1) \<Rightarrow>
      case parse_width s1 of (w, s2) \<Rightarrow>
      case parse_precision s2 of (p, s3) \<Rightarrow>
      case parse_length s3 of (l, s4) \<Rightarrow>
        (case s4 of
           [] \<Rightarrow> Inl FormatSyntaxError
         | c # s5 \<Rightarrow>
             (case conversion_of c of
                None \<Rightarrow>
                  Inl (if c \<in> set ''-0+ #*.123456789'' then FormatSyntaxError
                       else UnsupportedConversion)
              | Some k \<Rightarrow>
                  (case l of
                     None \<Rightarrow> Inl UnsupportedConversion
                   | Some lm \<Rightarrow>
                       Inr (\<lparr>flags = f, width = w, precision = p, length_mod = lm,
                             conversion = k, arg_width = argument_width k lm\<rparr>, s5)))))"

text \<open>
  Modelled from the spec: the side-channel requests of a directive: one integer-sized argument for a \<open>*\<close>
  width, then one for a \<open>*\<close> precision, both before the directive's own argument.
\<close>

definition side_requests :: "directive \<Rightarrow> side_request list" where
  "side_requests d =
     (if width d = FromArgument then [WidthRequest] else []) @
     (if precision d = Some FromArgument then [PrecisionRequest] else [])"

subsection \<open>FormatParser: advance\<close>

text \<open>
  Modelled from the spec: \<open>advance\<close> (section 4.1), the missing
  \<^verbatim>\<open>printf_parser_advance\<close>. While scanning it copies the literal run at the cursor
  to the sink; at the end of the string it returns \<open>0\<close>; at a \<open>%\<close> it parses the
  directive. A percent literal is written at once and scanning goes on within the
  same call; a malformed or unsupported directive is a fault; any other directive
  becomes the pending one, the parser awaits an argument, and the call returns the
  width of the first request: an integer-sized one for each \<open>*\<close>, then the
  directive's own. The specification lets the side-channel requests surface on
  later calls: called with a directive pending, \<open>advance\<close> scans nothing and
  returns the width of the next request.
\<close>

definition request_width :: "directive \<Rightarrow> side_request list \<Rightarrow> int32" where
  "request_width d queue = of_nat (case queue of [] \<Rightarrow> arg_width d | r # rs \<Rightarrow> int_width)"

function FormatParser_advance :: "FormatParser \<Rightarrow> fault + int32 \<times> FormatParser" where
  "FormatParser_advance P =
     (case pending_directive P of
        Some d \<Rightarrow> Inr (request_width d (side_channel_queue P), P)
      | None \<Rightarrow>
          (let remaining = drop (cursor P) (format_string P);
               literal = takeWhile (\<lambda>c. c \<noteq> CHR ''%'') remaining;
               P1 = P\<lparr>cursor := cursor P + length literal,
                      sink := OutputSink_write (sink P) literal\<rparr>
           in case dropWhile (\<lambda>c. c \<noteq> CHR ''%'') remaining of
                [] \<Rightarrow> Inr (0, P1)
              | percent # spec \<Rightarrow>
                  (case parse_directive spec of
                     Inl e \<Rightarrow> Inl e
                   | Inr (d, rest) \<Rightarrow>
                       (let P2 = P1\<lparr>cursor := cursor P1 + 1 + (length spec - length rest)\<rparr>
                        in if conversion d = PercentLiteral
                           then FormatParser_advance
                                  (P2\<lparr>sink := OutputSink_write (sink P1) ''%''\<rparr>)
                           else Inr (request_width d (side_requests d),
                                     P2\<lparr>mode := AwaitingArgument,
                                        pending_directive := Some d,
                                        side_channel_queue := side_requests d\<rparr>)))))"
  by pat_completeness auto
termination
proof (relation "measure (\<lambda>P. length (format_string P) - cursor P)")
  show "wf (measure (\<lambda>P. length (format_string P) - cursor P))"
    by simp
next
  fix P P1 P2 :: FormatParser and remaining literal spec rest :: string and percent :: char
  assume "dropWhile (\<lambda>c. c \<noteq> CHR ''%'') remaining = percent # spec"
    and "remaining = drop (cursor P) (format_string P)"
    and "P1 = P\<lparr>cursor := cursor P + length literal, sink := OutputSink_write (sink P) literal\<rparr>"
    and "P2 = P1\<lparr>cursor := cursor P1 + 1 + (length spec - length rest)\<rparr>"
  moreover from this have "cursor P < length (format_string P)"
    by (cases "cursor P < length (format_string P)") auto
  ultimately show "(P2\<lparr>sink := OutputSink_write (sink P1) ''%''\<rparr>, P)
      \<in> measure (\<lambda>P. length (format_string P) - cursor P)"
    by simp
qed

subsection \<open>FormatParser: rendering and push\_argument\<close>

text \<open>
  Modelled from the spec: rendering (section 4.1). The raw bytes of an argument are
  read as a number, unsigned or in two's complement; integers are written in base
  8, 10 or 16, zero-extended to the precision, with a sign or a radix mark in front,
  and padded to the field width.
\<close>

fun unsigned_of :: "byte list \<Rightarrow> nat" where
  "unsigned_of [] = 0"
| "unsigned_of (b # bs) = unat b + 256 * unsigned_of bs"

definition signed_of :: "byte list \<Rightarrow> int" where
  "signed_of bytes =
     (let n = int (unsigned_of bytes); m = 2 ^ (8 * length bytes)
      in if m \<le> 2 * n then n - m else n)"

definition digit_char :: "bool \<Rightarrow> nat \<Rightarrow> char" where
  "digit_char upper k = (if upper then ''0123456789ABCDEF'' else ''0123456789abcdef'') ! (k mod 16)"

function digits :: "nat \<Rightarrow> bool \<Rightarrow> nat \<Rightarrow> string \<Rightarrow> string" where
  "digits base upper n acc =
     (if base < 2 \<or> n < base then digit_char upper n # acc
      else digits base upper (n div base) (digit_char upper (n mod base) # acc))"
  by pat_completeness auto
termination
  by (relation "measure (\<lambda>(base, upper, n, acc). n)") auto

definition field_width :: "directive \<Rightarrow> nat" where
  "field_width d = (case width d of Literal n \<Rightarrow> n | FromArgument \<Rightarrow> 0)"

definition field_precision :: "directive \<Rightarrow> nat option" where
  "field_precision d =
     (case precision d of Some (Literal n) \<Rightarrow> Some n | Some FromArgument \<Rightarrow> None | None \<Rightarrow> None)"

text \<open>
  Modelled from the spec: padding to the field width: to the right when left-justified, with zeros between
  sign and digits for a zero-padded number, with spaces on the left otherwise.
\<close>

definition pad_field :: "directive \<Rightarrow> bool \<Rightarrow> string \<Rightarrow> string \<Rightarrow> string" where
  "pad_field d numeric lead body =
     (let fill = field_width d - (length lead + length body)
      in if left_justify (flags d) then lead @ body @ replicate fill CHR '' ''
         else if zero_pad (flags d) \<and> numeric \<and> field_precision d = None
           then lead @ replicate fill CHR ''0'' @ body
         else replicate fill CHR '' '' @ lead @ body)"

definition with_precision :: "directive \<Rightarrow> string \<Rightarrow> string" where
  "with_precision d ds =
     (case field_precision d of
        None \<Rightarrow> ds
      | Some p \<Rightarrow> replicate (p - length ds) CHR ''0'' @ ds)"

definition sign_of :: "directive \<Rightarrow> int \<Rightarrow> string" where
  "sign_of d v =
     (if v < 0 then ''-''
      else if force_sign (flags d) then ''+''
      else if space_for_positive (flags d) then '' ''
      else [])"

definition radix_mark :: "directive \<Rightarrow> nat \<Rightarrow> string \<Rightarrow> string" where
  "radix_mark d n mark = (if alternate_form (flags d) \<and> n \<noteq> 0 then mark else [])"

text \<open>
  Modelled from the spec: the text of a directive once its argument bytes are
  known. Strings are read from the machine's memory, floating-point text is the
  machine's; the count-out conversion is refused.
\<close>

definition render :: "'m machine_scheme \<Rightarrow> directive \<Rightarrow> byte list \<Rightarrow> fault + string" where
  "render m d bytes =
     (case conversion d of
        SignedInt \<Rightarrow>
          Inr (pad_field d True (sign_of d (signed_of bytes))
                 (with_precision d (digits 10 False (nat \<bar>signed_of bytes\<bar>) [])))
      | UnsignedInt \<Rightarrow>
          Inr (pad_field d True [] (with_precision d (digits 10 False (unsigned_of bytes) [])))
      | Octal \<Rightarrow>
          Inr (pad_field d True (radix_mark d (unsigned_of bytes) ''0'')
                 (with_precision d (digits 8 False (unsigned_of bytes) [])))
      | HexLower \<Rightarrow>
          Inr (pad_field d True (radix_mark d (unsigned_of bytes) ''0x'')
                 (with_precision d (digits 16 False (unsigned_of bytes) [])))
      | HexUpper \<Rightarrow>
          Inr (pad_field d True (radix_mark d (unsigned_of bytes) ''0X'')
                 (with_precision d (digits 16 True (unsigned_of bytes) [])))
      | FloatFixed \<Rightarrow>
          Inr (pad_field d True [] (float_text m FloatFixed (flags d) (field_precision d) bytes))
      | FloatExp \<Rightarrow>
          Inr (pad_field d True [] (float_text m FloatExp (flags d) (field_precision d) bytes))
      | FloatGeneral \<Rightarrow>
          Inr (pad_field d True [] (float_text m FloatGeneral (flags d) (field_precision d) bytes))
      | StringConv \<Rightarrow>
          Inr (pad_field d False []
                 (case field_precision d of
                    None \<Rightarrow> c_string_at m (unsigned_of bytes)
                  | Some p \<Rightarrow> take p (c_string_at m (unsigned_of bytes))))
      | CharConv \<Rightarrow>
          Inr (pad_field d False [] (map (\<lambda>b. char_of (unat b)) (take 1 bytes)))
      | PointerConv \<Rightarrow>
          Inr (pad_field d False ''0x'' (digits 16 False (unsigned_of bytes) []))
      | PercentLiteral \<Rightarrow> Inr ''%''
      | CountOut \<Rightarrow> Inl UnsupportedConversion)"

text \<open>
  Modelled from the spec: a width or precision taken from an argument; as in C, a negative width asks for
  left justification and a negative precision counts as none.
\<close>

definition supply_width :: "directive \<Rightarrow> int \<Rightarrow> directive" where
  "supply_width d v =
     (if v < 0 then d\<lparr>flags := (flags d)\<lparr>left_justify := True\<rparr>, width := Literal (nat (- v))\<rparr>
      else d\<lparr>width := Literal (nat v)\<rparr>)"

definition supply_precision :: "directive \<Rightarrow> int \<Rightarrow> directive" where
  "supply_precision d v =
     (if v < 0 then d\<lparr>precision := None\<rparr> else d\<lparr>precision := Some (Literal (nat v))\<rparr>)"

text \<open>
  Modelled from the spec: \<open>push_argument\<close> (section 4.1), the missing
  \<^verbatim>\<open>printf_parser_push_arg\<close>: while the side-channel queue is not empty the bytes answer
  its first request and the directive stays pending; otherwise the pending
  directive is rendered into the sink and the parser is back to scanning. The
  count-out conversion is refused at this point. Without a pending directive the
  call breaks the contract, and the model faults.
\<close>

definition FormatParser_push_argument ::
  "'m machine_scheme \<Rightarrow> FormatParser \<Rightarrow> byte list \<Rightarrow> fault + FormatParser" where
  "FormatParser_push_argument m P bytes =
     (case pending_directive P of
        None \<Rightarrow> Inl (Panic ''push_argument without a pending directive'')
      | Some d \<Rightarrow>
          (case side_channel_queue P of
             [] \<Rightarrow>
               (case render m d bytes of
                  Inl e \<Rightarrow> Inl e
                | Inr rendered \<Rightarrow>
                    Inr (P\<lparr>sink := OutputSink_write (sink P) rendered,
                           pending_directive := None,
                           mode := Scanning\<rparr>))
           | request # queue \<Rightarrow>
               (case request of
                  WidthRequest \<Rightarrow>
                    Inr (P\<lparr>pending_directive := Some (supply_width d (signed_of bytes)),
                           side_channel_queue := queue\<rparr>)
                | PrecisionRequest \<Rightarrow>
                    Inr (P\<lparr>pending_directive := Some (supply_precision d (signed_of bytes)),
                           side_channel_queue := queue\<rparr>))))"

subsection \<open>The parser behind the C interface\<close>

text \<open>
  Modelled from the spec: the missing constructors. A new parser scans from the
  start of the format string, with the unbounded sink of the console or with a
  bounded sink over the caller's buffer.
\<close>

definition FormatParser_new :: "string \<Rightarrow> FormatParser" where
  "FormatParser_new fmt =
     \<lparr>format_string = fmt, cursor = 0, mode = Scanning, pending_directive = None,
      side_channel_queue = [], sink = OutputSink_unbounded\<rparr>"

definition FormatParser_new_with_buf :: "string \<Rightarrow> string \<Rightarrow> nat \<Rightarrow> FormatParser" where
  "FormatParser_new_with_buf fmt buf capacity =
     \<lparr>format_string = fmt, cursor = 0, mode = Scanning, pending_directive = None,
      side_channel_queue = [], sink = OutputSink_bounded buf capacity\<rparr>"

text \<open>
  Modelled from the spec: the six external routines of \<^verbatim>\<open>fakelibc.c\<close>, implemented
  by the modelled parser and cursor. Freeing the parser changes nothing that can be observed.
\<close>

definition PrintfParser ::
  "'m machine_scheme \<Rightarrow> (FormatParser, ArgumentCursor, byte list) extern" where
  "PrintfParser m =
     \<lparr>printf_parser_new = (\<lambda>fmt. Inr (FormatParser_new fmt)),
      printf_parser_new_with_buf =
        (\<lambda>fmt buf sz. Inr (FormatParser_new_with_buf fmt buf (unat sz))),
      printf_parser_free = Inr,
      printf_parser_push_arg = FormatParser_push_argument m,
      printf_parser_advance = FormatParser_advance,
      va_arg_ptr = (\<lambda>args sz. ArgumentCursor_pull args (unat sz))\<rparr>"

text \<open>A machine with empty memory, to run the parser on concrete inputs.\<close>

definition bare_machine :: machine where
  "bare_machine = \<lparr>c_string_at = (\<lambda>a. []), float_text = (\<lambda>k f p bytes. [])\<rparr>"

subsection \<open>Observations on a run\<close>

text \<open>
  The number of passes of the loop of \<^verbatim>\<open>do_printf\<close> is the number of calls of
  advance; a round trip is a pass that reaches \<^verbatim>\<open>printf_parser_push_arg\<close>; a request
  is an advance that returned a non-zero size.
\<close>

fun is_advance :: "'a event \<Rightarrow> bool" where
  "is_advance (Advance r) = True"
| "is_advance (VaArg n pulled) = False"
| "is_advance (PushArg a ok) = False"

fun is_push :: "'a event \<Rightarrow> bool" where
  "is_push (Advance r) = False"
| "is_push (VaArg n pulled) = False"
| "is_push (PushArg a ok) = True"

fun is_request :: "'a event \<Rightarrow> bool" where
  "is_request (Advance r) = (case r of None \<Rightarrow> False | Some n \<Rightarrow> n \<noteq> 0)"
| "is_request (VaArg n pulled) = False"
| "is_request (PushArg a ok) = False"

definition passes :: "'a event list \<Rightarrow> nat" where
  "passes tr = length (filter is_advance tr)"

definition round_trips :: "'a event list \<Rightarrow> nat" where
  "round_trips tr = length (filter is_push tr)"

definition requests :: "'a event list \<Rightarrow> nat" where
  "requests tr = length (filter is_request tr)"

text \<open>
  The text a formatting call would produce with no bound: what \<^verbatim>\<open>vfprintf\<close>, whose
  parser has the unbounded sink, sends to the console.
\<close>

definition would_be_output ::
  "nat \<Rightarrow> 'm machine_scheme \<Rightarrow> string \<Rightarrow> ArgumentCursor \<Rightarrow> (fault + string) option" where
  "would_be_output fuel m fmt args =
     map_option (map_sum id (\<lambda>(w, P, r). store (sink P)))
       (vfprintf fuel (PrintfParser m) initial_world stdout fmt args)"

text \<open>The value a call handed back, when it returned.\<close>

definition returned_value ::
  "(fault + 'w \<times> 'p \<times> int32 option) option \<Rightarrow> int32 option option" where
  "returned_value r =
     (case r of
        None \<Rightarrow> None
      | Some (Inl e) \<Rightarrow> None
      | Some (Inr (w, P, v)) \<Rightarrow> Some v)"

subsection \<open>Auxiliary definitions for the proofs\<close>

text \<open>
  The repository's own test, \<^verbatim>\<open>test_printf\<close>, formats \<^verbatim>\<open>"key_multi_msgplayer%i"\<close> with
  the argument \<^verbatim>\<open>3\<close> (the four bytes \<open>[3, 0, 0, 0]\<close>). The three definitions below
  name the directive of that format string and the parser before and after the
  run, for any sink.
\<close>

definition sample_directive :: directive where
  "sample_directive =
     \<lparr>flags = no_flags, width = Literal 0, precision = None, length_mod = LenInt,
      conversion = SignedInt, arg_width = 4\<rparr>"

definition sample_start :: "OutputSink \<Rightarrow> FormatParser" where
  "sample_start s =
     \<lparr>format_string = ''key_multi_msgplayer%i'', cursor = 0, mode = Scanning,
      pending_directive = None, side_channel_queue = [], sink = s\<rparr>"

definition sample_end :: "OutputSink \<Rightarrow> FormatParser" where
  "sample_end s =
     \<lparr>format_string = ''key_multi_msgplayer%i'', cursor = 21, mode = Scanning,
      pending_directive = None, side_channel_queue = [],
      sink = OutputSink_write
               (OutputSink_write (OutputSink_write s ''key_multi_msgplayer'') ''3'') []\<rparr>"

text \<open>
  \<open>budget P\<close> bounds the number of requests the parser can still make: those of
  the pending directive, and at most one per character left after the next one.
\<close>

definition budget :: "FormatParser \<Rightarrow> nat" where
  "budget P =
     (case pending_directive P of None \<Rightarrow> 0 | Some d \<Rightarrow> Suc (length (side_channel_queue P)))
     + (length (format_string P) - cursor P - 1)"

text \<open>
  \<open>mirrors buf c su sb\<close>: the bounded sink \<open>sb\<close> of capacity \<open>c\<close> over the buffer
  \<open>buf\<close> has seen the same writes as the unbounded sink \<open>su\<close>. \<open>twin\<close> lifts
  the relation to two parsers that differ in their sinks only.
\<close>

definition mirrors :: "string \<Rightarrow> nat \<Rightarrow> OutputSink \<Rightarrow> OutputSink \<Rightarrow> bool" where
  "mirrors buf c su sb \<longleftrightarrow>
     kind su = Unbounded \<and> kind sb = Bounded c \<and>
     logical_length su = length (store su) \<and> written su = length (store su) \<and>
     logical_length sb = length (store su) \<and>
     written sb = min (length (store su)) (c - 1) \<and>
     store sb =
       (if 0 < c
        then take (min (length (store su)) (c - 1)) (store su) @ [terminator]
               @ drop (min (length (store su)) (c - 1) + 1) buf
        else buf) \<and>
     truncated sb = (c - 1 < length (store su))"

definition twin :: "string \<Rightarrow> nat \<Rightarrow> FormatParser \<Rightarrow> FormatParser \<Rightarrow> bool" where
  "twin buf c Pu Pb \<longleftrightarrow>
     format_string Pu = format_string Pb \<and> cursor Pu = cursor Pb \<and> mode Pu = mode Pb \<and>
     pending_directive Pu = pending_directive Pb \<and>
     side_channel_queue Pu = side_channel_queue Pb \<and>
     mirrors buf c (sink Pu) (sink Pb)"

section \<open>Properties of the C code\<close>

lemma do_printf_numeral:
  "do_printf (numeral k) ext parser format args = do_printf (Suc (pred_numeral k)) ext parser format args"
  by (simp add: numeral_eq_Suc)

lemma do_printf_Orchestrator:
  "do_printf fuel ext parser format args = (tr, out) \<Longrightarrow> Orchestrator ext parser args tr out"
proof (induction fuel arbitrary: parser args tr out)
  case 0
  then show ?case by simp
next
  case (Suc fuel)
  show ?case
    using Suc.prems Suc.IH
    by (auto split: sum.splits prod.splits if_splits)
qed

lemma do_printf_shape:
  "do_printf fuel ext parser format args = (tr, out) \<Longrightarrow>
     \<exists>rounds rest. tr = concat (map round_events rounds) @ rest \<and>
        list_all (\<lambda>r. fst r \<noteq> 0) rounds \<and> closing rest out"
proof (induction fuel arbitrary: parser args tr out)
  case 0
  then have "tr = concat (map round_events []) @ [] \<and> list_all (\<lambda>r. fst r \<noteq> 0) [] \<and> closing [] out"
    by simp
  then show ?case by blast
next
  case (Suc fuel)
  show ?case
  proof (cases "printf_parser_advance ext parser")
    case (Inl e)
    with Suc.prems have "tr = concat (map round_events []) @ [Advance None] \<and>
        list_all (\<lambda>r. fst r \<noteq> 0) [] \<and> closing [Advance None] out"
      by auto
    then show ?thesis by blast
  next
    case (Inr np)
    obtain n p1 where np: "np = (n, p1)" by (cases np)
    show ?thesis
    proof (cases "n = 0")
      case True
      with Suc.prems Inr np have "tr = concat (map round_events []) @ [Advance (Some 0)] \<and>
          list_all (\<lambda>r. fst r \<noteq> 0) [] \<and> closing [Advance (Some 0)] out"
        by auto
      then show ?thesis by blast
    next
      case False
      show ?thesis
      proof (cases "va_arg_ptr ext args n")
        case (Inl e)
        with Suc.prems Inr np False
        have "tr = concat (map round_events []) @ [Advance (Some n), VaArg n None] \<and>
          list_all (\<lambda>r. fst r \<noteq> 0) [] \<and> closing [Advance (Some n), VaArg n None] out"
          by auto
        then show ?thesis by blast
      next
        case pulled: (Inr av)
        obtain a args1 where av: "av = (a, args1)" by (cases av)
        show ?thesis
        proof (cases "printf_parser_push_arg ext p1 a")
          case (Inl e)
          with Suc.prems Inr np False pulled av
          have "tr = concat (map round_events [])
                  @ [Advance (Some n), VaArg n (Some a), PushArg a False] \<and>
            list_all (\<lambda>r. fst r \<noteq> 0) [] \<and>
            closing [Advance (Some n), VaArg n (Some a), PushArg a False] out"
            by auto
          then show ?thesis by blast
        next
          case pushed: (Inr p2)
          obtain tr' out' where rest: "do_printf fuel ext p2 format args1 = (tr', out')"
            by (cases "do_printf fuel ext p2 format args1")
          from Suc.IH [OF rest] obtain rounds rest where
            sh: "tr' = concat (map round_events rounds) @ rest"
              "list_all (\<lambda>r. fst r \<noteq> 0) rounds" "closing rest out'"
            by blast
          with Suc.prems Inr np False pulled av pushed rest
          have "tr = concat (map round_events ((n, a) # rounds)) @ rest \<and>
            list_all (\<lambda>r. fst r \<noteq> 0) ((n, a) # rounds) \<and> closing rest out"
            by (simp add: round_events_def)
          then show ?thesis by blast
        qed
      qed
    qed
  qed
qed

text \<open>
  C1. In every formatting call the loop of \<^verbatim>\<open>do_printf\<close> is the orchestrator of the
  specification: it calls \<^verbatim>\<open>printf_parser_advance\<close>; on \<open>0\<close> it stops at once; on a
  non-zero size it calls \<^verbatim>\<open>va_arg_ptr\<close> once with that size, hands what it got to
  \<^verbatim>\<open>printf_parser_push_arg\<close> once, and only then calls advance again. This holds
  for every parser and argument list, and for every number of passes observed. The
  trace is accepted by \<open>Orchestrator\<close>, and it is a sequence of complete rounds
  followed by the closing part of its outcome.
\<close>

theorem do_printf_is_Orchestrator:
  "Orchestrator ext parser args (fst (do_printf fuel ext parser format args))
     (snd (do_printf fuel ext parser format args)) \<and>
   (\<exists>rounds rest.
      fst (do_printf fuel ext parser format args) = concat (map round_events rounds) @ rest \<and>
      list_all (\<lambda>r. fst r \<noteq> 0) rounds \<and>
      closing rest (snd (do_printf fuel ext parser format args)))"
proof
  show "Orchestrator ext parser args (fst (do_printf fuel ext parser format args))
     (snd (do_printf fuel ext parser format args))"
    by (rule do_printf_Orchestrator) simp
  show "\<exists>rounds rest.
      fst (do_printf fuel ext parser format args) = concat (map round_events rounds) @ rest \<and>
      list_all (\<lambda>r. fst r \<noteq> 0) rounds \<and>
      closing rest (snd (do_printf fuel ext parser format args))"
    by (rule do_printf_shape) simp
qed

theorem do_printf_is_Orchestrator_witness:
  "Orchestrator scripted [4] [[3, 0, 0, 0]]
     [Advance (Some 4), VaArg 4 (Some [3, 0, 0, 0]), PushArg [3, 0, 0, 0] True, Advance (Some 0)]
     (Some (Inr ([], []))) \<and>
   do_printf 2 scripted [4] ''%d'' [[3, 0, 0, 0]] =
     (round_events (4, [3, 0, 0, 0]) @ [Advance (Some 0)], Some (Inr ([], [])))"
  using do_printf_is_Orchestrator [of scripted "[4]" "[[3, 0, 0, 0]]" 2 "''%d''"]
  by (simp add: scripted_def do_printf_numeral round_events_def)

lemma round_split:
  "Advance r # VaArg m pulled # x # tr = pre @ PushArg a ok # post \<Longrightarrow>
     (pre = [Advance r, VaArg m pulled] \<and> x = PushArg a ok \<and> post = tr) \<or>
     (\<exists>pre2. pre = Advance r # VaArg m pulled # x # pre2 \<and> tr = pre2 @ PushArg a ok # post)"
  by (cases pre; cases "tl pre"; cases "tl (tl pre)") auto

lemma push_after_request:
  "do_printf fuel ext parser format args = (tr, out) \<Longrightarrow> tr = pre @ PushArg a ok # post \<Longrightarrow>
     \<exists>pre' n. n \<noteq> 0 \<and> pre = pre' @ [Advance (Some n), VaArg n (Some a)]"
proof (induction fuel arbitrary: parser args tr out pre)
  case 0
  then show ?case by simp
next
  case (Suc fuel)
  show ?case
  proof (cases "printf_parser_advance ext parser")
    case (Inl e)
    with Suc.prems show ?thesis by (auto simp: Cons_eq_append_conv)
  next
    case (Inr np)
    obtain n p1 where np: "np = (n, p1)" by (cases np)
    show ?thesis
    proof (cases "n = 0")
      case True
      with Suc.prems Inr np show ?thesis by (auto simp: Cons_eq_append_conv)
    next
      case False
      show ?thesis
      proof (cases "va_arg_ptr ext args n")
        case (Inl e)
        with Suc.prems Inr np False show ?thesis by (auto simp: Cons_eq_append_conv)
      next
        case pulled: (Inr av)
        obtain arg args1 where av: "av = (arg, args1)" by (cases av)
        show ?thesis
        proof (cases "printf_parser_push_arg ext p1 arg")
          case (Inl e)
          with Suc.prems Inr np False pulled av show ?thesis
            by (auto simp: Cons_eq_append_conv)
        next
          case pushed: (Inr p2)
          obtain tr' out' where rest: "do_printf fuel ext p2 format args1 = (tr', out')"
            by (cases "do_printf fuel ext p2 format args1")
          with Suc.prems Inr np False pulled av pushed
          have tr: "Advance (Some n) # VaArg n (Some arg) # PushArg arg True # tr' = pre @ PushArg a ok # post"
            by simp
          from round_split [OF tr] show ?thesis
          proof
            assume "pre = [Advance (Some n), VaArg n (Some arg)] \<and> PushArg arg True = PushArg a ok \<and> post = tr'"
            with False show ?thesis by auto
          next
            assume "\<exists>pre2. pre = Advance (Some n) # VaArg n (Some arg) # PushArg arg True # pre2 \<and> tr' = pre2 @ PushArg a ok # post"
            then obtain pre2 where p2: "pre = Advance (Some n) # VaArg n (Some arg) # PushArg arg True # pre2"
              and t2: "tr' = pre2 @ PushArg a ok # post" by blast
            from Suc.IH [OF rest t2] obtain pre' k where "k \<noteq> 0" "pre2 = pre' @ [Advance (Some k), VaArg k (Some a)]"
              by blast
            with p2 show ?thesis by auto
          qed
        qed
      qed
    qed
  qed
qed

lemma returned_after_zero:
  "do_printf fuel ext parser format args = (tr, Some (Inr r)) \<Longrightarrow> \<exists>pre. tr = pre @ [Advance (Some 0)]"
proof (induction fuel arbitrary: parser args tr)
  case 0
  then show ?case by simp
next
  case (Suc fuel)
  show ?case
  proof (cases "printf_parser_advance ext parser")
    case (Inl e)
    with Suc.prems show ?thesis by simp
  next
    case (Inr np)
    with Suc.prems obtain pre where "tr = [Advance (Some 0)] \<or> (\<exists>x y z tr'. tr = x # y # z # tr' \<and> tr' = pre @ [Advance (Some 0)])"
      using Suc.IH by (fastforce split: sum.splits prod.splits if_splits)
    then show ?thesis by auto
  qed
qed

lemma advance_zero_last:
  "do_printf fuel ext parser format args = (tr, out) \<Longrightarrow> tr = pre @ Advance (Some 0) # post \<Longrightarrow>
     post = [] \<and> (\<exists>r. out = Some (Inr r))"
proof (induction fuel arbitrary: parser args tr out pre)
  case 0
  then show ?case by simp
next
  case (Suc fuel)
  show ?case
    using Suc.prems Suc.IH
    by (auto split: sum.splits prod.splits if_splits simp: Cons_eq_append_conv) 
qed


text \<open>
  C9. In the trace of \<^verbatim>\<open>do_printf\<close>, every call of \<^verbatim>\<open>printf_parser_push_arg\<close> comes
  right after the \<^verbatim>\<open>va_arg_ptr\<close> call that pulled its argument, which comes right
  after an advance that returned a non-zero size; and nothing, so no push either,
  follows an advance that returned \<open>0\<close>.
\<close>

theorem push_arg_follows_nonzero_advance:
  "do_printf fuel ext parser format args = (tr, out) \<Longrightarrow>
     (\<forall>pre a ok post. tr = pre @ PushArg a ok # post \<longrightarrow>
        (\<exists>pre' n. n \<noteq> 0 \<and> pre = pre' @ [Advance (Some n), VaArg n (Some a)])) \<and>
     (\<forall>pre post. tr = pre @ Advance (Some 0) # post \<longrightarrow> post = [])"
proof (intro conjI allI impI)
  fix pre a ok post
  assume tr: "tr = pre @ PushArg a ok # post"
  assume run: "do_printf fuel ext parser format args = (tr, out)"
  from push_after_request [OF run tr]
  show "\<exists>pre' n. n \<noteq> 0 \<and> pre = pre' @ [Advance (Some n), VaArg n (Some a)]" .
next
  fix pre post
  assume tr: "tr = pre @ Advance (Some 0) # post"
  assume run: "do_printf fuel ext parser format args = (tr, out)"
  from advance_zero_last [OF run tr] show "post = []" by simp
qed

theorem push_arg_follows_nonzero_advance_witness:
  "do_printf 2 scripted [4] ''%d'' [[3, 0, 0, 0]] =
     ([Advance (Some 4), VaArg 4 (Some [3, 0, 0, 0]), PushArg [3, 0, 0, 0] True, Advance (Some 0)],
      Some (Inr ([], []))) \<and>
   (\<exists>pre' n. n \<noteq> 0 \<and>
      [Advance (Some 4), VaArg 4 (Some [3, 0, 0, 0])] =
        pre' @ [Advance (Some n), VaArg n (Some ([3, 0, 0, 0] :: byte list))])"
proof -
  have run: "do_printf 2 scripted [4] ''%d'' [[3, 0, 0, 0]] =
     ([Advance (Some 4), VaArg 4 (Some [3, 0, 0, 0]), PushArg [3, 0, 0, 0] True, Advance (Some 0)],
      Some (Inr ([], [])))"
    by (simp add: scripted_def do_printf_numeral)
  have "[Advance (Some 4), VaArg 4 (Some [3, 0, 0, 0]), PushArg ([3, 0, 0, 0] :: byte list) True, Advance (Some 0)]
       = [Advance (Some 4), VaArg 4 (Some [3, 0, 0, 0])] @ PushArg [3, 0, 0, 0] True # [Advance (Some 0)]"
    by simp
  with push_arg_follows_nonzero_advance [OF run] have "\<exists>pre' n. n \<noteq> 0 \<and>
      [Advance (Some 4), VaArg 4 (Some [3, 0, 0, 0])] =
        pre' @ [Advance (Some n), VaArg n (Some ([3, 0, 0, 0] :: byte list))]"
    by blast
  with run show ?thesis by (rule conjI)
qed

text \<open>
  C10. Only the value \<open>0\<close> stops the loop. When advance returns a negative size
  \<open>n\<close>, \<^verbatim>\<open>do_printf\<close> calls \<^verbatim>\<open>va_arg_ptr\<close> with \<open>n\<close> and, when that returns, passes
  the result to \<^verbatim>\<open>printf_parser_push_arg\<close> and goes on with the next pass; and a
  call that returns normally has \<open>Advance (Some 0)\<close> as its last event.
\<close>

theorem do_printf_negative_size:
  assumes "printf_parser_advance ext parser = Inr (n, parser1)" and "sint n < 0"
  shows "(\<exists>pulled rest. fst (do_printf (Suc fuel) ext parser format args)
             = Advance (Some n) # VaArg n pulled # rest) \<and>
         (\<forall>arg args1 parser2.
             va_arg_ptr ext args n = Inr (arg, args1) \<and>
             printf_parser_push_arg ext parser1 arg = Inr parser2 \<longrightarrow>
             do_printf (Suc fuel) ext parser format args =
               (Advance (Some n) # VaArg n (Some arg) # PushArg arg True
                  # fst (do_printf fuel ext parser2 format args1),
                snd (do_printf fuel ext parser2 format args1))) \<and>
         (\<forall>r. snd (do_printf (Suc fuel) ext parser format args) = Some (Inr r) \<longrightarrow>
             (\<exists>pre. fst (do_printf (Suc fuel) ext parser format args) = pre @ [Advance (Some 0)]))"
proof -
  from assms(2) have nz: "n \<noteq> 0" by auto
  have a: "\<exists>pulled rest. fst (do_printf (Suc fuel) ext parser format args)
             = Advance (Some n) # VaArg n pulled # rest"
    using assms(1) nz by (auto split: sum.splits prod.splits)
  have b: "\<forall>arg args1 parser2.
             va_arg_ptr ext args n = Inr (arg, args1) \<and>
             printf_parser_push_arg ext parser1 arg = Inr parser2 \<longrightarrow>
             do_printf (Suc fuel) ext parser format args =
               (Advance (Some n) # VaArg n (Some arg) # PushArg arg True
                  # fst (do_printf fuel ext parser2 format args1),
                snd (do_printf fuel ext parser2 format args1))"
    using assms(1) nz by (auto split: prod.splits)
  have c: "\<forall>r. snd (do_printf (Suc fuel) ext parser format args) = Some (Inr r) \<longrightarrow>
             (\<exists>pre. fst (do_printf (Suc fuel) ext parser format args) = pre @ [Advance (Some 0)])"
  proof (intro allI impI)
    fix r
    assume "snd (do_printf (Suc fuel) ext parser format args) = Some (Inr r)"
    then have "do_printf (Suc fuel) ext parser format args
        = (fst (do_printf (Suc fuel) ext parser format args), Some (Inr r))"
      by (simp add: prod_eq_iff del: do_printf.simps)
    from returned_after_zero [OF this]
    show "\<exists>pre. fst (do_printf (Suc fuel) ext parser format args) = pre @ [Advance (Some 0)]" .
  qed
  from a b c show ?thesis by blast
qed


theorem do_printf_negative_size_witness:
  "printf_parser_advance scripted [- 1] = Inr (- 1, []) \<and> sint (- 1 :: int32) < 0 \<and>
   do_printf (Suc (Suc 0)) scripted [- 1] ''%d'' [[7]] =
     ([Advance (Some (- 1)), VaArg (- 1) (Some [7]), PushArg [7] True, Advance (Some 0)],
      Some (Inr ([], [])))"
proof -
  have adv: "printf_parser_advance scripted [- 1] = Inr (- 1, [])"
    by (simp add: scripted_def)
  have neg: "sint (- 1 :: int32) < 0"
    by simp
  have pull: "va_arg_ptr scripted [[7]] (- 1) = Inr ([7], []) \<and>
      printf_parser_push_arg scripted [] [7] = Inr []"
    by (simp add: scripted_def)
  have rest: "do_printf (Suc 0) scripted [] ''%d'' [] = ([Advance (Some 0)], Some (Inr ([], [])))"
    by (simp add: scripted_def)
  from do_printf_negative_size [OF adv neg, of "Suc 0" "''%d''" "[[7]]"] pull
  have "do_printf (Suc (Suc 0)) scripted [- 1] ''%d'' [[7]] =
      (Advance (Some (- 1)) # VaArg (- 1) (Some [7]) # PushArg [7] True
         # fst (do_printf (Suc 0) scripted [] ''%d'' []),
       snd (do_printf (Suc 0) scripted [] ''%d'' []))"
    by blast
  with adv neg rest show ?thesis by simp
qed

text \<open>
  Fuel only cuts the observation off: once \<^verbatim>\<open>do_printf\<close> has an outcome with some
  fuel, more fuel gives the same trace and the same outcome. So a statement made
  for one sufficient amount of fuel holds for every larger one.
\<close>

lemma do_printf_fuel_mono:
  "snd (do_printf fuel ext parser format args) \<noteq> None \<Longrightarrow>
     do_printf (fuel + k) ext parser format args = do_printf fuel ext parser format args"
proof (induction fuel arbitrary: parser args)
  case 0
  then show ?case by simp
next
  case (Suc fuel)
  show ?case
  proof (cases "printf_parser_advance ext parser")
    case (Inl e)
    then show ?thesis by simp
  next
    case (Inr np)
    obtain n p1 where np: "np = (n, p1)" by (cases np)
    show ?thesis
    proof (cases "n = 0")
      case True
      with Inr np show ?thesis by simp
    next
      case False
      show ?thesis
      proof (cases "va_arg_ptr ext args n")
        case (Inl e)
        with Inr np False show ?thesis by simp
      next
        case pulled: (Inr av)
        obtain a args1 where av: "av = (a, args1)" by (cases av)
        show ?thesis
        proof (cases "printf_parser_push_arg ext p1 a")
          case (Inl e)
          with Inr np False pulled av show ?thesis by simp
        next
          case pushed: (Inr p2)
          from Suc.prems Inr np False pulled av pushed
          have "snd (do_printf fuel ext p2 format args1) \<noteq> None"
            by (simp split: prod.splits)
          from Suc.IH [OF this] Inr np False pulled av pushed show ?thesis
            by simp
        qed
      qed
    qed
  qed
qed

text \<open>
  C7. Each of the thirteen unimplemented routines faults on every call: its result
  is the fault raised by \<^verbatim>\<open>panic_c\<close> with the routine's own "unimplemented"
  message, whatever the arguments and the world; no world and no value is handed
  back.
\<close>

theorem unimplemented_stubs_fault:
  "strstr w haystack needle = Inl (Panic ''strstr unimplemented'') \<and>
   strchr w s c = Inl (Panic ''strchr unimplemented'') \<and>
   strrchr w s c = Inl (Panic ''strrchr unimplemented'') \<and>
   atoi w nptr = Inl (Panic ''atoi unimplemented'') \<and>
   atof w nptr = Inl (Panic ''atof unimplemented'') \<and>
   abs_c w j = Inl (Panic ''abs unimplemented'') \<and>
   exit w status = Inl (Panic ''exit unimplemented'') \<and>
   fprintf w stream format args = Inl (Panic ''fprintf unimplemented'') \<and>
   rename w old new = Inl (Panic ''rename unimplemented'') \<and>
   remove_c w pathname = Inl (Panic ''remove unimplemented'') \<and>
   sscanf w str format args' = Inl (Panic ''sscanf unimplemented'') \<and>
   fabs w x = Inl (Panic ''fabs unimplemented'') \<and>
   isspace w c = Inl (Panic ''isspace unimplemented'')"
  by (simp add: strstr_def strchr_def strrchr_def atoi_def atof_def abs_c_def exit_def
      fprintf_def rename_def remove_c_def sscanf_def fabs_def isspace_def panic_c_def)

text \<open>
  C8. \<^verbatim>\<open>system\<close> returns \<open>1\<close>, a non-zero result, for every command and leaves the
  world as it was; \<^verbatim>\<open>mkdir\<close> and \<^verbatim>\<open>fflush\<close> return with the world unchanged for
  every input (their bodies are empty, so they hand back no value).
\<close>

theorem system_fails_mkdir_fflush_noop:
  "system w command = Inr (w, Some 1) \<and> (1 :: int32) \<noteq> 0 \<and>
   mkdir w path perm = Inr (w, None) \<and>
   fflush w stream = Inr (w, None)"
  by (simp add: system_def mkdir_def fflush_def)

text \<open>
  C6. No formatting call reads or writes \<^verbatim>\<open>errno\<close>. The bodies of \<^verbatim>\<open>printf\<close>,
  \<^verbatim>\<open>snprintf\<close>, \<^verbatim>\<open>vfprintf\<close> and \<^verbatim>\<open>vsnprintf\<close> name only their parameters and the
  external routines, and those are given the parser and the argument list, never
  the world (the specification: no global mutable state backs the interpreter).
  So, for every parser: a call that returns leaves \<^verbatim>\<open>errno\<close> as it found it, and
  running the call with another value of \<^verbatim>\<open>errno\<close> changes nothing but the value of
  \<^verbatim>\<open>errno\<close> in the world handed back. \<^verbatim>\<open>do_printf\<close> is not even given the world:
  its embedding has no such parameter.
\<close>

theorem formatting_calls_frame_errno:
  "(\<forall>r. printf fuel ext w format args = Some (Inr r) \<longrightarrow> errno (fst r) = errno w) \<and>
   (\<forall>r. snprintf fuel ext w buf sz format args = Some (Inr r) \<longrightarrow> errno (fst r) = errno w) \<and>
   (\<forall>r. vfprintf fuel ext w stream format args = Some (Inr r) \<longrightarrow> errno (fst r) = errno w) \<and>
   (\<forall>r. vsnprintf fuel ext w buf sz format args = Some (Inr r) \<longrightarrow> errno (fst r) = errno w) \<and>
   printf fuel ext (w\<lparr>errno := e\<rparr>) format args =
     map_option (map_sum id (\<lambda>(w', r). (w'\<lparr>errno := e\<rparr>, r))) (printf fuel ext w format args) \<and>
   snprintf fuel ext (w\<lparr>errno := e\<rparr>) buf sz format args =
     map_option (map_sum id (\<lambda>(w', r). (w'\<lparr>errno := e\<rparr>, r)))
       (snprintf fuel ext w buf sz format args) \<and>
   vfprintf fuel ext (w\<lparr>errno := e\<rparr>) stream format args =
     map_option (map_sum id (\<lambda>(w', r). (w'\<lparr>errno := e\<rparr>, r)))
       (vfprintf fuel ext w stream format args) \<and>
   vsnprintf fuel ext (w\<lparr>errno := e\<rparr>) buf sz format args =
     map_option (map_sum id (\<lambda>(w', r). (w'\<lparr>errno := e\<rparr>, r)))
       (vsnprintf fuel ext w buf sz format args)"
  by (auto simp: printf_def snprintf_def vfprintf_def vsnprintf_def simp del: do_printf.simps
      split: option.splits sum.splits prod.splits)

theorem formatting_calls_frame_errno_witness:
  "snprintf 1 scripted \<lparr>errno = 5\<rparr> ''....'' 4 ''%d'' [[3, 0, 0, 0]]
     = Some (Inr (\<lparr>errno = 5\<rparr>, [], None)) \<and>
   errno (fst (\<lparr>errno = 5\<rparr>, [] :: int32 list, None :: int32 option)) = errno \<lparr>errno = 5\<rparr>"
proof -
  have run: "snprintf 1 scripted \<lparr>errno = 5\<rparr> ''....'' 4 ''%d'' [[3, 0, 0, 0]]
     = Some (Inr (\<lparr>errno = 5\<rparr>, [], None))"
    by (simp add: snprintf_def vsnprintf_def scripted_def)
  with formatting_calls_frame_errno [where fuel = 1 and ext = scripted and w = "\<lparr>errno = 5\<rparr>"
      and buf = "''....''" and sz = 4 and format = "''%d''" and args = "[[3, 0, 0, 0]]"]
  have "errno (fst (\<lparr>errno = 5\<rparr>, [] :: int32 list, None :: int32 option)) = errno \<lparr>errno = 5\<rparr>"
    by blast
  with run show ?thesis by (rule conjI)
qed

section \<open>Properties of the formatting calls over the modelled parser\<close>

text \<open>
  From here on the external routines are those of \<open>PrintfParser m\<close>. The recursive
  equations of \<open>advance\<close> and \<open>digits\<close> are unfolded by hand.
\<close>

declare FormatParser_advance.simps [simp del]

declare digits.simps [simp del]

lemma parse_flags_length: "parse_flags s f = (f', r) \<Longrightarrow> length r \<le> length s"
  by (induction s arbitrary: f) (auto split: if_splits simp: le_SucI)

lemma parse_digits_length: "parse_digits s n = (k, r) \<Longrightarrow> length r \<le> length s"
  by (induction s arbitrary: n) (auto split: if_splits simp: le_SucI)

lemma parse_width_length:
  "parse_width s = (w, r) \<Longrightarrow> length r + (if w = FromArgument then 1 else 0) \<le> length s"
  by (auto simp: parse_width_def split: list.splits if_splits prod.splits dest: parse_digits_length)

lemma parse_precision_length:
  "parse_precision s = (p, r) \<Longrightarrow> length r + (if p = Some FromArgument then 1 else 0) \<le> length s"
  by (auto simp: parse_precision_def le_SucI split: list.splits if_splits prod.splits
      dest!: parse_digits_length)

lemma parse_length_length: "parse_length s = (l, r) \<Longrightarrow> length r \<le> length s"
  by (auto simp: parse_length_def split: list.splits if_splits)

lemma parse_directive_length:
  assumes "parse_directive s = Inr (d, r)"
  shows "length r + length (side_requests d) + 1 \<le> length s"
proof -
  obtain f s1 where 1: "parse_flags s no_flags = (f, s1)" by (cases "parse_flags s no_flags")
  obtain w s2 where 2: "parse_width s1 = (w, s2)" by (cases "parse_width s1")
  obtain p s3 where 3: "parse_precision s2 = (p, s3)" by (cases "parse_precision s2")
  obtain l s4 where 4: "parse_length s3 = (l, s4)" by (cases "parse_length s3")
  from assms 1 2 3 4 obtain c where s4: "s4 = c # r" and w: "width d = w" and p: "precision d = p"
    by (auto simp: parse_directive_def split: list.splits option.splits)
  from parse_flags_length [OF 1] parse_width_length [OF 2] parse_precision_length [OF 3]
    parse_length_length [OF 4] s4 w p
  show ?thesis
    by (auto simp: side_requests_def split: if_splits)
qed

lemma literal_split:
  "dropWhile Q (drop n xs) = c # spec \<Longrightarrow>
     n + length (takeWhile Q (drop n xs)) + 1 + length spec = length xs"
proof -
  assume a: "dropWhile Q (drop n xs) = c # spec"
  have "length (takeWhile Q (drop n xs)) + length (dropWhile Q (drop n xs)) = length (drop n xs)"
    by (metis length_append takeWhile_dropWhile_id)
  moreover from a have "n < length xs" by (cases "n < length xs") auto
  ultimately show ?thesis using a by simp
qed

lemma advance_result:
  "FormatParser_advance P = Inr (n, P') \<Longrightarrow>
     budget P' \<le> budget P \<and> (pending_directive P' = None \<longrightarrow> n = 0) \<and>
     format_string P' = format_string P"
proof (induction P arbitrary: n P' rule: FormatParser_advance.induct)
  case (1 P)
  show ?case
  proof (cases "pending_directive P")
    case (Some d)
    with "1.prems" show ?thesis
      by (subst (asm) FormatParser_advance.simps) auto
  next
    case None
    let ?rem = "drop (cursor P) (format_string P)"
    let ?lit = "takeWhile (\<lambda>c. c \<noteq> CHR ''%'') ?rem"
    let ?P1 = "P\<lparr>cursor := cursor P + length ?lit, sink := OutputSink_write (sink P) ?lit\<rparr>"
    show ?thesis
    proof (cases "dropWhile (\<lambda>c. c \<noteq> CHR ''%'') ?rem")
      case Nil
      with None "1.prems" have "n = 0" "P' = ?P1"
        by (subst (asm) FormatParser_advance.simps, simp add: Let_def)+
      with None show ?thesis by (simp add: budget_def)
    next
      case (Cons percent spec)
      note split = literal_split [OF Cons]
      show ?thesis
      proof (cases "parse_directive spec")
        case (Inl e)
        with None Cons "1.prems" show ?thesis
          by (subst (asm) FormatParser_advance.simps) (simp add: Let_def)
      next
        case (Inr dr)
        obtain d rest where dr: "dr = (d, rest)" by (cases dr)
        note len = parse_directive_length [OF Inr [unfolded dr]]
        let ?P2 = "?P1\<lparr>cursor := cursor ?P1 + 1 + (length spec - length rest)\<rparr>"
        show ?thesis
        proof (cases "conversion d = PercentLiteral")
          case True
          with None Cons Inr dr "1.prems"
          have run: "FormatParser_advance (?P2\<lparr>sink := OutputSink_write (sink ?P1) ''%''\<rparr>) = Inr (n, P')"
            by (subst (asm) FormatParser_advance.simps) (simp add: Let_def)
          from "1.IH" [OF None refl refl refl Cons Inr dr [symmetric] refl True run]
          have "budget P' \<le> budget (?P2\<lparr>sink := OutputSink_write (sink ?P1) ''%''\<rparr>)"
            and "pending_directive P' = None \<longrightarrow> n = 0"
            and "format_string P' = format_string P"
            by simp_all
          moreover have "budget (?P2\<lparr>sink := OutputSink_write (sink ?P1) ''%''\<rparr>) \<le> budget P"
            using None split len by (simp add: budget_def)
          ultimately show ?thesis by simp
        next
          case False
          with None Cons Inr dr "1.prems"
          have P': "P' = ?P2\<lparr>mode := AwaitingArgument, pending_directive := Some d,
                        side_channel_queue := side_requests d\<rparr>"
            by (subst (asm) FormatParser_advance.simps) (simp add: Let_def)
          then show ?thesis
            using None split len by (simp add: budget_def)
        qed
      qed
    qed
  qed
qed

lemma push_result:
  "FormatParser_push_argument m P bytes = Inr P' \<Longrightarrow>
     Suc (budget P') = budget P \<and> format_string P' = format_string P"
  by (auto simp: FormatParser_push_argument_def budget_def
      split: option.splits list.splits sum.splits side_request.splits)

lemma push_fault_budget:
  "pending_directive P \<noteq> None \<Longrightarrow> 0 < budget P"
  by (auto simp: budget_def)

lemma PrintfParser_simps [simp]:
  "printf_parser_advance (PrintfParser m) = FormatParser_advance"
  "printf_parser_push_arg (PrintfParser m) = FormatParser_push_argument m"
  "va_arg_ptr (PrintfParser m) = (\<lambda>args sz. ArgumentCursor_pull args (unat sz))"
  "printf_parser_new (PrintfParser m) = (\<lambda>fmt. Inr (FormatParser_new fmt))"
  "printf_parser_new_with_buf (PrintfParser m) =
     (\<lambda>fmt buf sz. Inr (FormatParser_new_with_buf fmt buf (unat sz)))"
  "printf_parser_free (PrintfParser m) = Inr"
  by (simp_all add: PrintfParser_def)

lemma passes_simps [simp]:
  "passes [] = 0"
  "passes (Advance r # tr) = Suc (passes tr)"
  "passes (VaArg k pulled # tr) = passes tr"
  "passes (PushArg a ok # tr) = passes tr"
  by (simp_all add: passes_def)

lemma round_trips_simps [simp]:
  "round_trips [] = 0"
  "round_trips (Advance r # tr) = round_trips tr"
  "round_trips (VaArg k pulled # tr) = round_trips tr"
  "round_trips (PushArg a ok # tr) = Suc (round_trips tr)"
  by (simp_all add: round_trips_def)

lemma do_printf_budget:
  "budget P < fuel \<Longrightarrow> do_printf fuel (PrintfParser m) P fmt args = (tr, out) \<Longrightarrow>
     out \<noteq> None \<and> round_trips tr \<le> budget P \<and> passes tr \<le> Suc (budget P)"
proof (induction fuel arbitrary: P args tr out)
  case 0
  then show ?case by simp
next
  case (Suc fuel)
  show ?case
  proof (cases "FormatParser_advance P")
    case (Inl e)
    with Suc.prems show ?thesis by auto
  next
    case (Inr nP)
    obtain n P1 where nP: "nP = (n, P1)" by (cases nP)
    from advance_result [OF Inr [unfolded nP]]
    have b1: "budget P1 \<le> budget P" and pend: "pending_directive P1 = None \<longrightarrow> n = 0" by simp_all
    show ?thesis
    proof (cases "n = 0")
      case True
      with Suc.prems Inr nP show ?thesis by auto
    next
      case False
      with pend have pos: "0 < budget P1" by (auto intro: push_fault_budget)
      show ?thesis
      proof (cases "ArgumentCursor_pull args (unat n)")
        case (Inl e)
        with Suc.prems Inr nP False show ?thesis by auto
      next
        case pulled: (Inr av)
        obtain a args1 where av: "av = (a, args1)" by (cases av)
        show ?thesis
        proof (cases "FormatParser_push_argument m P1 a")
          case (Inl e)
          with Suc.prems Inr nP False pulled av pos b1 show ?thesis by auto
        next
          case pushed: (Inr P2)
          obtain tr' out' where rest: "do_printf fuel (PrintfParser m) P2 fmt args1 = (tr', out')"
            by (cases "do_printf fuel (PrintfParser m) P2 fmt args1")
          from push_result [OF pushed] have b2: "Suc (budget P2) = budget P1" by simp
          with b1 Suc.prems(1) have "budget P2 < fuel" by simp
          from Suc.IH [OF this rest]
          have "out' \<noteq> None" "round_trips tr' \<le> budget P2" "passes tr' \<le> Suc (budget P2)"
            by simp_all
          with Suc.prems(2) Inr nP False pulled av pushed rest b1 b2 show ?thesis
            by auto
        qed
      qed
    qed
  qed
qed

lemma parse_directive_fault:
  "parse_directive s = Inl e \<Longrightarrow> e = FormatSyntaxError \<or> e = UnsupportedConversion"
  by (auto simp: parse_directive_def split: prod.splits list.splits option.splits if_splits)

lemma advance_fault:
  "FormatParser_advance P = Inl e \<Longrightarrow> e = FormatSyntaxError \<or> e = UnsupportedConversion"
proof (induction P rule: FormatParser_advance.induct)
  case (1 P)
  show ?case
  proof (cases "pending_directive P")
    case (Some d)
    with "1.prems" show ?thesis
      by (subst (asm) FormatParser_advance.simps) auto
  next
    case None
    let ?rem = "drop (cursor P) (format_string P)"
    let ?lit = "takeWhile (\<lambda>c. c \<noteq> CHR ''%'') ?rem"
    let ?P1 = "P\<lparr>cursor := cursor P + length ?lit, sink := OutputSink_write (sink P) ?lit\<rparr>"
    show ?thesis
    proof (cases "dropWhile (\<lambda>c. c \<noteq> CHR ''%'') ?rem")
      case Nil
      with None "1.prems" show ?thesis
        by (subst (asm) FormatParser_advance.simps) (simp add: Let_def)
    next
      case (Cons percent spec)
      show ?thesis
      proof (cases "parse_directive spec")
        case (Inl e')
        with None Cons "1.prems" have "e' = e"
          by (subst (asm) FormatParser_advance.simps) (simp add: Let_def)
        with parse_directive_fault [OF Inl] show ?thesis by simp
      next
        case (Inr dr)
        obtain d rest where dr: "dr = (d, rest)" by (cases dr)
        let ?P2 = "?P1\<lparr>cursor := cursor ?P1 + 1 + (length spec - length rest)\<rparr>"
        show ?thesis
        proof (cases "conversion d = PercentLiteral")
          case True
          with None Cons Inr dr "1.prems"
          have run: "FormatParser_advance (?P2\<lparr>sink := OutputSink_write (sink ?P1) ''%''\<rparr>) = Inl e"
            by (subst (asm) FormatParser_advance.simps) (simp add: Let_def)
          from "1.IH" [OF None refl refl refl Cons Inr dr [symmetric] refl True run]
          show ?thesis .
        next
          case False
          with None Cons Inr dr "1.prems" show ?thesis
            by (subst (asm) FormatParser_advance.simps) (simp add: Let_def)
        qed
      qed
    qed
  qed
qed

lemma push_fault:
  "FormatParser_push_argument m P bytes = Inl e \<Longrightarrow> e \<noteq> ArgumentExhausted"
  by (auto simp: FormatParser_push_argument_def render_def
      split: option.splits list.splits sum.splits side_request.splits conversion_kind.splits)

lemma pull_fault:
  "ArgumentCursor_pull args k = Inl e \<longleftrightarrow> args = [] \<and> e = ArgumentExhausted"
  by (auto simp: ArgumentCursor_pull_def split: list.splits)

lemma pull_ok:
  "ArgumentCursor_pull args k = Inr (a, args1) \<Longrightarrow> length args = Suc (length args1) \<and> length a = k"
  by (auto simp: ArgumentCursor_pull_def split: list.splits)

lemma requests_simps [simp]:
  "requests [] = 0"
  "requests (Advance None # tr) = requests tr"
  "requests (Advance (Some k) # tr) = (if k = 0 then requests tr else Suc (requests tr))"
  "requests (VaArg k pulled # tr) = requests tr"
  "requests (PushArg a ok # tr) = requests tr"
  by (simp_all add: requests_def)

lemma do_printf_requests:
  "do_printf fuel (PrintfParser m) P fmt args = (tr, out) \<Longrightarrow> out \<noteq> None \<Longrightarrow>
     ((out = Some (Inl ArgumentExhausted)) = (length args < requests tr)) \<and>
     (out = Some (Inl ArgumentExhausted) \<longrightarrow>
        (\<exists>pre n. n \<noteq> 0 \<and> tr = pre @ [Advance (Some n), VaArg n None]))"
proof (induction fuel arbitrary: P args tr out)
  case 0
  then show ?case by simp
next
  case (Suc fuel)
  show ?case
  proof (cases "FormatParser_advance P")
    case (Inl e)
    with advance_fault [OF Inl] Suc.prems show ?thesis by auto
  next
    case (Inr nP)
    obtain n P1 where nP: "nP = (n, P1)" by (cases nP)
    show ?thesis
    proof (cases "n = 0")
      case True
      with Suc.prems Inr nP show ?thesis by auto
    next
      case False
      show ?thesis
      proof (cases "ArgumentCursor_pull args (unat n)")
        case (Inl e)
        then have "args = []" "e = ArgumentExhausted" by (simp_all add: pull_fault)
        with Inl Suc.prems Inr nP False show ?thesis by auto
      next
        case pulled: (Inr av)
        obtain a args1 where av: "av = (a, args1)" by (cases av)
        from pull_ok [OF pulled [unfolded av]] have len: "length args = Suc (length args1)" by simp
        show ?thesis
        proof (cases "FormatParser_push_argument m P1 a")
          case (Inl e)
          with push_fault [OF Inl] Suc.prems Inr nP False pulled av len show ?thesis by auto
        next
          case pushed: (Inr P2)
          obtain tr' out' where rest: "do_printf fuel (PrintfParser m) P2 fmt args1 = (tr', out')"
            by (cases "do_printf fuel (PrintfParser m) P2 fmt args1")
          with Suc.prems Inr nP False pulled av pushed
          have tr: "tr = Advance (Some n) # VaArg n (Some a) # PushArg a True # tr'" and out: "out = out'"
            by simp_all
          with Suc.prems(2) have "out' \<noteq> None" by simp
          from Suc.IH [OF rest this]
          have iff: "(out' = Some (Inl ArgumentExhausted)) = (length args1 < requests tr')"
            and last: "out' = Some (Inl ArgumentExhausted) \<longrightarrow>
              (\<exists>pre k. k \<noteq> 0 \<and> tr' = pre @ [Advance (Some k), VaArg k None])"
            by simp_all
          have "(out = Some (Inl ArgumentExhausted)) = (length args < requests tr)"
            using iff tr out len False by simp
          moreover have "out = Some (Inl ArgumentExhausted) \<longrightarrow>
              (\<exists>pre k. k \<noteq> 0 \<and> tr = pre @ [Advance (Some k), VaArg k None])"
          proof
            assume "out = Some (Inl ArgumentExhausted)"
            with last out obtain pre k where "k \<noteq> 0" "tr' = pre @ [Advance (Some k), VaArg k None]"
              by blast
            with tr have "k \<noteq> 0 \<and> tr = (Advance (Some n) # VaArg n (Some a) # PushArg a True # pre)
                @ [Advance (Some k), VaArg k None]"
              by simp
            then show "\<exists>pre k. k \<noteq> 0 \<and> tr = pre @ [Advance (Some k), VaArg k None]"
              by blast
          qed
          ultimately show ?thesis by simp
        qed
      qed
    qed
  qed
qed

lemma mirrors_initial:
  "mirrors buf c OutputSink_unbounded (OutputSink_bounded buf c)"
  by (simp add: mirrors_def OutputSink_unbounded_def OutputSink_bounded_def poke_def)

lemma mirrors_write:
  assumes m: "mirrors buf c su sb" and c: "c \<le> length buf"
  shows "mirrors buf c (OutputSink_write su bs) (OutputSink_write sb bs)"
proof (cases "0 < c")
  case False
  with m show ?thesis
    by (auto simp: mirrors_def OutputSink_write_def Let_def)
next
  case True
  let ?out = "store su"
  show ?thesis
  proof (cases "length ?out < c - 1")
    case full: False
    then have w: "min (length ?out) (c - 1) = c - 1" by simp
    from full have w': "min (length ?out + length bs) (c - 1) = c - 1" by simp
    from m True full w have sb: "written sb = c - 1"
      "store sb = take (c - 1) ?out @ [terminator] @ drop c buf"
      by (simp_all add: mirrors_def)
    have len: "length (take (c - 1) ?out) = c - 1" using full by simp
    have "poke (c - 1) [terminator] (store sb) = store sb"
      using len True by (simp add: poke_def sb)
    moreover have "(truncated sb \<or> 0 < length bs) = (c - 1 < length ?out + length bs)"
      using m full by (cases bs) (auto simp: mirrors_def)
    ultimately show ?thesis
      using m True full w w' sb
      by (simp add: mirrors_def OutputSink_write_def Let_def del: length_greater_0_conv)
  next
    case room: True
    then have w: "min (length ?out) (c - 1) = length ?out" by simp
    from m True w have sb: "written sb = length ?out"
      "store sb = ?out @ [terminator] @ drop (length ?out + 1) buf"
      by (simp_all add: mirrors_def)
    let ?kept = "take (c - 1 - length ?out) bs"
    have k: "length ?out + length ?kept = min (length ?out + length bs) (c - 1)"
      using room by auto
    have tk: "take (min (length ?out + length bs) (c - 1)) (?out @ bs) = ?out @ ?kept"
      using room by (auto simp: min_def)
    have fits: "length ?out + length ?kept + 1 \<le> length buf"
      using room c True by auto
    have "poke (length ?out) (?kept @ [terminator]) (store sb)
        = ?out @ ?kept @ [terminator] @ drop (length ?out + length ?kept + 1) buf"
      using fits by (simp add: poke_def sb add.commute add.left_commute)
    moreover have "(truncated sb \<or> length ?kept < length bs) = (c - 1 < length ?out + length bs)"
      using m room by (auto simp: mirrors_def)
    ultimately show ?thesis
      using m True room w sb k tk
      by (simp add: mirrors_def OutputSink_write_def Let_def del: length_greater_0_conv)
  qed
qed

lemma twin_initial:
  "twin buf c (FormatParser_new fmt) (FormatParser_new_with_buf fmt buf c)"
  by (simp add: twin_def FormatParser_new_def FormatParser_new_with_buf_def mirrors_initial)

lemma advance_pending:
  "pending_directive P = Some d \<Longrightarrow>
     FormatParser_advance P = Inr (request_width d (side_channel_queue P), P)"
  by (subst FormatParser_advance.simps) simp

lemma advance_end:
  "pending_directive P = None \<Longrightarrow>
   dropWhile (\<lambda>c. c \<noteq> CHR ''%'') (drop (cursor P) (format_string P)) = [] \<Longrightarrow>
     FormatParser_advance P =
       Inr (0, P\<lparr>cursor := cursor P
                    + length (takeWhile (\<lambda>c. c \<noteq> CHR ''%'') (drop (cursor P) (format_string P))),
                 sink := OutputSink_write (sink P)
                    (takeWhile (\<lambda>c. c \<noteq> CHR ''%'') (drop (cursor P) (format_string P)))\<rparr>)"
  by (subst FormatParser_advance.simps) (simp add: Let_def del: dropWhile_eq_Nil_conv)

lemma advance_bad_directive:
  "pending_directive P = None \<Longrightarrow>
   dropWhile (\<lambda>c. c \<noteq> CHR ''%'') (drop (cursor P) (format_string P)) = percent # spec \<Longrightarrow>
   parse_directive spec = Inl e \<Longrightarrow>
     FormatParser_advance P = Inl e"
  by (subst FormatParser_advance.simps) (simp add: Let_def)

lemma advance_percent:
  "pending_directive P = None \<Longrightarrow>
   dropWhile (\<lambda>c. c \<noteq> CHR ''%'') (drop (cursor P) (format_string P)) = percent # spec \<Longrightarrow>
   parse_directive spec = Inr (d, rest) \<Longrightarrow> conversion d = PercentLiteral \<Longrightarrow>
     FormatParser_advance P =
       FormatParser_advance
         (P\<lparr>cursor := cursor P
                + length (takeWhile (\<lambda>c. c \<noteq> CHR ''%'') (drop (cursor P) (format_string P)))
                + 1 + (length spec - length rest),
            sink := OutputSink_write
                (OutputSink_write (sink P)
                   (takeWhile (\<lambda>c. c \<noteq> CHR ''%'') (drop (cursor P) (format_string P))))
                ''%''\<rparr>)"
  by (subst FormatParser_advance.simps) (simp add: Let_def)

lemma advance_directive:
  "pending_directive P = None \<Longrightarrow>
   dropWhile (\<lambda>c. c \<noteq> CHR ''%'') (drop (cursor P) (format_string P)) = percent # spec \<Longrightarrow>
   parse_directive spec = Inr (d, rest) \<Longrightarrow> conversion d \<noteq> PercentLiteral \<Longrightarrow>
     FormatParser_advance P =
       Inr (request_width d (side_requests d),
            P\<lparr>cursor := cursor P
                + length (takeWhile (\<lambda>c. c \<noteq> CHR ''%'') (drop (cursor P) (format_string P)))
                + 1 + (length spec - length rest),
              sink := OutputSink_write (sink P)
                (takeWhile (\<lambda>c. c \<noteq> CHR ''%'') (drop (cursor P) (format_string P))),
              mode := AwaitingArgument, pending_directive := Some d,
              side_channel_queue := side_requests d\<rparr>)"
  by (subst FormatParser_advance.simps) (simp add: Let_def)

lemma advance_twin:
  assumes c: "c \<le> length buf"
  shows "twin buf c Pu Pb \<Longrightarrow>
     (case FormatParser_advance Pu of
        Inl e \<Rightarrow> FormatParser_advance Pb = Inl e
      | Inr (n, Pu') \<Rightarrow> (\<exists>Pb'. FormatParser_advance Pb = Inr (n, Pb') \<and> twin buf c Pu' Pb'))"
proof (induction Pu arbitrary: Pb rule: FormatParser_advance.induct)
  case (1 P)
  from "1.prems" have eqs: "format_string Pb = format_string P" "cursor Pb = cursor P"
      "mode Pb = mode P" "pending_directive Pb = pending_directive P"
      "side_channel_queue Pb = side_channel_queue P"
    and mir: "mirrors buf c (sink P) (sink Pb)"
    by (simp_all add: twin_def)
  note mw = mirrors_write [OF _ c]
  show ?case
  proof (cases "pending_directive P")
    case (Some d)
    with eqs have SomeB: "pending_directive Pb = Some d" by simp
    show ?thesis
      by (simp add: advance_pending [OF Some] advance_pending [OF SomeB] twin_def eqs mir)
  next
    case None
    with eqs have NoneB: "pending_directive Pb = None" by simp
    let ?rem = "drop (cursor P) (format_string P)"
    let ?lit = "takeWhile (\<lambda>c. c \<noteq> CHR ''%'') ?rem"
    show ?thesis
    proof (cases "dropWhile (\<lambda>c. c \<noteq> CHR ''%'') ?rem")
      case Nil
      then have NilB:
        "dropWhile (\<lambda>c. c \<noteq> CHR ''%'') (drop (cursor Pb) (format_string Pb)) = []"
        by (simp add: eqs del: dropWhile_eq_Nil_conv)
      show ?thesis
        by (simp add: advance_end [OF None Nil] advance_end [OF NoneB NilB] eqs twin_def
            mw mir del: dropWhile_eq_Nil_conv)
    next
      case (Cons percent spec)
      then have ConsB:
        "dropWhile (\<lambda>c. c \<noteq> CHR ''%'') (drop (cursor Pb) (format_string Pb)) = percent # spec"
        by (simp add: eqs)
      show ?thesis
      proof (cases "parse_directive spec")
        case (Inl e)
        show ?thesis
          by (simp add: advance_bad_directive [OF None Cons Inl]
              advance_bad_directive [OF NoneB ConsB Inl])
      next
        case (Inr dr)
        obtain d rest where dr: "dr = (d, rest)" by (cases dr)
        note parsed = Inr [unfolded dr]
        show ?thesis
        proof (cases "conversion d = PercentLiteral")
          case True
          let ?P3 = "P\<lparr>cursor := cursor P + length ?lit + 1 + (length spec - length rest),
                       sink := OutputSink_write (OutputSink_write (sink P) ?lit) ''%''\<rparr>"
          let ?B3 = "Pb\<lparr>cursor := cursor P + length ?lit + 1 + (length spec - length rest),
                       sink := OutputSink_write (OutputSink_write (sink Pb) ?lit) ''%''\<rparr>"
          have stepP: "FormatParser_advance P = FormatParser_advance ?P3"
            by (rule advance_percent [OF None Cons parsed True])
          have stepB: "FormatParser_advance Pb = FormatParser_advance ?B3"
            using advance_percent [OF NoneB ConsB parsed True] by (simp add: eqs)
          have tw3: "twin buf c ?P3 ?B3"
            by (simp add: twin_def eqs mw mir)
          have "case FormatParser_advance ?P3 of
                  Inl e \<Rightarrow> FormatParser_advance ?B3 = Inl e
                | Inr (n, Pu') \<Rightarrow> (\<exists>Pb'. FormatParser_advance ?B3 = Inr (n, Pb') \<and> twin buf c Pu' Pb')"
            using "1.IH" [OF None refl refl refl Cons Inr dr [symmetric] refl True, of ?B3] tw3
            by simp
          then show ?thesis by (simp only: stepP stepB)
        next
          case False
          show ?thesis
            by (simp add: advance_directive [OF None Cons parsed False]
                advance_directive [OF NoneB ConsB parsed False] eqs twin_def mw mir)
        qed
      qed
    qed
  qed
qed

lemma push_twin:
  assumes c: "c \<le> length buf" and tw: "twin buf c Pu Pb"
  shows "case FormatParser_push_argument m Pu a of
        Inl e \<Rightarrow> FormatParser_push_argument m Pb a = Inl e
      | Inr Pu' \<Rightarrow> (\<exists>Pb'. FormatParser_push_argument m Pb a = Inr Pb' \<and> twin buf c Pu' Pb')"
  using tw
  by (auto simp: FormatParser_push_argument_def twin_def mirrors_write [OF _ c]
      split: option.splits list.splits sum.splits side_request.splits)

lemma do_printf_round:
  "printf_parser_advance ext p = Inr (n, p1) \<Longrightarrow> n \<noteq> 0 \<Longrightarrow>
   va_arg_ptr ext v n = Inr (a, v1) \<Longrightarrow> printf_parser_push_arg ext p1 a = Inr p2 \<Longrightarrow>
     do_printf (Suc fuel) ext p f v =
       (Advance (Some n) # VaArg n (Some a) # PushArg a True # fst (do_printf fuel ext p2 f v1),
        snd (do_printf fuel ext p2 f v1))"
  by (simp split: prod.splits)

lemma do_printf_twin:
  assumes c: "c \<le> length buf"
  shows "twin buf c Pu Pb \<Longrightarrow>
     fst (do_printf fuel (PrintfParser m) Pb fmt args) = fst (do_printf fuel (PrintfParser m) Pu fmt args) \<and>
     (case snd (do_printf fuel (PrintfParser m) Pu fmt args) of
        None \<Rightarrow> snd (do_printf fuel (PrintfParser m) Pb fmt args) = None
      | Some (Inl e) \<Rightarrow> snd (do_printf fuel (PrintfParser m) Pb fmt args) = Some (Inl e)
      | Some (Inr (Pu', args')) \<Rightarrow>
          (\<exists>Pb'. snd (do_printf fuel (PrintfParser m) Pb fmt args) = Some (Inr (Pb', args')) \<and>
             twin buf c Pu' Pb'))"
proof (induction fuel arbitrary: Pu Pb args)
  case 0
  show ?case by simp
next
  case (Suc fuel)
  note adv = advance_twin [OF c Suc.prems]
  show ?case
  proof (cases "FormatParser_advance Pu")
    case (Inl e)
    with adv show ?thesis by simp
  next
    case (Inr nP)
    obtain n Pu1 where nP: "nP = (n, Pu1)" by (cases nP)
    with adv Inr obtain Pb1 where advB: "FormatParser_advance Pb = Inr (n, Pb1)"
      and tw1: "twin buf c Pu1 Pb1" by auto
    show ?thesis
    proof (cases "n = 0")
      case True
      with Inr nP advB tw1 show ?thesis by simp
    next
      case False
      show ?thesis
      proof (cases "ArgumentCursor_pull args (unat n)")
        case (Inl e)
        with Inr nP advB False show ?thesis by simp
      next
        case pulled: (Inr av)
        obtain a args1 where av: "av = (a, args1)" by (cases av)
        note psh = push_twin [OF c tw1, of m a]
        show ?thesis
        proof (cases "FormatParser_push_argument m Pu1 a")
          case (Inl e)
          with psh Inr nP advB False pulled av show ?thesis by simp
        next
          case pushed: (Inr Pu2)
          with psh obtain Pb2 where pushB: "FormatParser_push_argument m Pb1 a = Inr Pb2"
            and tw2: "twin buf c Pu2 Pb2" by auto
          have runU: "do_printf (Suc fuel) (PrintfParser m) Pu fmt args =
              (Advance (Some n) # VaArg n (Some a) # PushArg a True
                 # fst (do_printf fuel (PrintfParser m) Pu2 fmt args1),
               snd (do_printf fuel (PrintfParser m) Pu2 fmt args1))"
            using Inr nP False pulled av pushed by (intro do_printf_round) simp_all
          have runB: "do_printf (Suc fuel) (PrintfParser m) Pb fmt args =
              (Advance (Some n) # VaArg n (Some a) # PushArg a True
                 # fst (do_printf fuel (PrintfParser m) Pb2 fmt args1),
               snd (do_printf fuel (PrintfParser m) Pb2 fmt args1))"
            using advB False pulled av pushB by (intro do_printf_round) simp_all
          from Suc.IH [OF tw2, of args1] show ?thesis
            by (simp only: runU runB fst_conv snd_conv)
        qed
      qed
    qed
  qed
qed

lemmas parse_simps =
  parse_directive_def parse_width_def parse_precision_def parse_length_def conversion_of_def
  no_flags_def is_digit_def digit_value_def argument_width_def integer_width_def int_width_def
  pointer_width_def double_width_def long_width_def long_long_width_def size_width_def

lemma sample_advance1:
  "FormatParser_advance (sample_start s) =
     Inr (4, (sample_start s)\<lparr>cursor := 21, mode := AwaitingArgument,
                pending_directive := Some sample_directive,
                sink := OutputSink_write s ''key_multi_msgplayer''\<rparr>)"
proof -
  let ?P = "sample_start s"
  have 1: "pending_directive ?P = None"
    by (simp add: sample_start_def)
  have 2: "dropWhile (\<lambda>c. c \<noteq> CHR ''%'') (drop (cursor ?P) (format_string ?P)) = CHR ''%'' # ''i''"
    by (simp add: sample_start_def)
  have 3: "parse_directive ''i'' = Inr (sample_directive, [])"
    by (simp add: parse_simps sample_directive_def)
  have 4: "conversion sample_directive \<noteq> PercentLiteral"
    by (simp add: sample_directive_def)
  show ?thesis
    unfolding advance_directive [OF 1 2 3 4]
    by (simp add: sample_start_def request_width_def side_requests_def sample_directive_def)
qed

lemma sample_push:
  "FormatParser_push_argument m
     ((sample_start s)\<lparr>cursor := 21, mode := AwaitingArgument,
        pending_directive := Some sample_directive,
        sink := OutputSink_write s ''key_multi_msgplayer''\<rparr>) [3, 0, 0, 0] =
   Inr ((sample_start s)\<lparr>cursor := 21,
          sink := OutputSink_write (OutputSink_write s ''key_multi_msgplayer'') ''3''\<rparr>)"
proof -
  have "render m sample_directive [3, 0, 0, 0] = Inr ''3''"
    by (simp add: render_def pad_field_def with_precision_def sign_of_def field_width_def
        field_precision_def signed_of_def digit_char_def digits.simps no_flags_def Let_def
        sample_directive_def)
  then show ?thesis
    by (simp add: FormatParser_push_argument_def sample_start_def)
qed

lemma sample_advance2:
  "FormatParser_advance
     ((sample_start s)\<lparr>cursor := 21,
        sink := OutputSink_write (OutputSink_write s ''key_multi_msgplayer'') ''3''\<rparr>) =
   Inr (0, sample_end s)"
proof -
  let ?P = "(sample_start s)\<lparr>cursor := 21,
        sink := OutputSink_write (OutputSink_write s ''key_multi_msgplayer'') ''3''\<rparr>"
  have 1: "pending_directive ?P = None"
    by (simp add: sample_start_def)
  have 2: "dropWhile (\<lambda>c. c \<noteq> CHR ''%'') (drop (cursor ?P) (format_string ?P)) = []"
    by (simp add: sample_start_def)
  show ?thesis
    unfolding advance_end [OF 1 2]
    by (simp add: sample_start_def sample_end_def)
qed

lemma sample_run:
  "do_printf (Suc (Suc fuel)) (PrintfParser m) (sample_start s) fmt [[3, 0, 0, 0]] =
     ([Advance (Some 4), VaArg 4 (Some [3, 0, 0, 0]), PushArg [3, 0, 0, 0] True, Advance (Some 0)],
      Some (Inr (sample_end s, [])))"
  by (simp add: sample_advance1 sample_push sample_advance2 ArgumentCursor_pull_def)

lemma sample_run_no_args:
  "do_printf (Suc fuel) (PrintfParser m) (sample_start s) fmt [] =
     ([Advance (Some 4), VaArg 4 None], Some (Inl ArgumentExhausted))"
  by (simp add: sample_advance1 ArgumentCursor_pull_def)

lemma sample_unbounded:
  "store (sink (sample_end OutputSink_unbounded)) = ''key_multi_msgplayer3''"
  by (simp add: sample_end_def OutputSink_unbounded_def OutputSink_write_def)

lemma sample_bounded_32:
  "sink (sample_end (OutputSink_bounded (replicate 32 CHR ''.'') 32)) =
     \<lparr>kind = Bounded 32,
      store = ''key_multi_msgplayer3'' @ [terminator] @ replicate 11 CHR ''.'',
      written = 20, logical_length = 20, truncated = False\<rparr>"
  by (simp add: sample_end_def OutputSink_bounded_def OutputSink_write_def poke_def Let_def)

lemma sample_new:
  "FormatParser_new ''key_multi_msgplayer%i'' = sample_start OutputSink_unbounded"
  "FormatParser_new_with_buf ''key_multi_msgplayer%i'' buf c = sample_start (OutputSink_bounded buf c)"
  by (simp_all add: FormatParser_new_def FormatParser_new_with_buf_def sample_start_def)

lemma sample_would_be_output:
  "would_be_output (Suc (Suc fuel)) m ''key_multi_msgplayer%i'' [[3, 0, 0, 0]]
     = Some (Inr ''key_multi_msgplayer3'')"
  by (simp add: would_be_output_def vfprintf_def sample_new sample_run sample_unbounded
      del: do_printf.simps)

lemma budget_new:
  "budget (FormatParser_new fmt) = length fmt - 1"
  "budget (FormatParser_new_with_buf fmt buf c) = length fmt - 1"
  by (simp_all add: budget_def FormatParser_new_def FormatParser_new_with_buf_def)

lemma spec_run_returns:
  assumes "length fmt < fuel"
  shows "\<exists>tr r. do_printf fuel (PrintfParser m) (FormatParser_new fmt) fmt args = (tr, Some r)"
proof -
  obtain tr out where run: "do_printf fuel (PrintfParser m) (FormatParser_new fmt) fmt args = (tr, out)"
    by (cases "do_printf fuel (PrintfParser m) (FormatParser_new fmt) fmt args")
  from assms have "budget (FormatParser_new fmt) < fuel" by (simp add: budget_new)
  from do_printf_budget [OF this run] have "out \<noteq> None" by simp
  with run show ?thesis by auto
qed

lemma fuel_22: "(22 :: nat) = Suc (Suc 20)"
  by simp

lemma sample_run_22:
  "do_printf 22 (PrintfParser m) (sample_start s) fmt [[3, 0, 0, 0]] =
     ([Advance (Some 4), VaArg 4 (Some [3, 0, 0, 0]), PushArg [3, 0, 0, 0] True, Advance (Some 0)],
      Some (Inr (sample_end s, [])))"
  by (subst fuel_22) (rule sample_run)

lemma sample_run_no_args_22:
  "do_printf 22 (PrintfParser m) (sample_start s) fmt [] =
     ([Advance (Some 4), VaArg 4 None], Some (Inl ArgumentExhausted))"
  by (subst fuel_22) (rule sample_run_no_args)

lemma sample_would_be_output_22:
  "would_be_output 22 m ''key_multi_msgplayer%i'' [[3, 0, 0, 0]] = Some (Inr ''key_multi_msgplayer3'')"
  by (subst fuel_22) (rule sample_would_be_output)

lemma spec_calls_fault:
  "(vfprintf fuel (PrintfParser m) w stream fmt args = Some (Inl e)) =
     (snd (do_printf fuel (PrintfParser m) (FormatParser_new fmt) fmt args) = Some (Inl e))"
  "(vsnprintf fuel (PrintfParser m) w str sz fmt args = Some (Inl e)) =
     (snd (do_printf fuel (PrintfParser m) (FormatParser_new_with_buf fmt str (unat sz)) fmt args)
        = Some (Inl e))"
  by (auto simp: vfprintf_def vsnprintf_def simp del: do_printf.simps
      split: option.splits sum.splits prod.splits)

text \<open>
  C2. A bounded formatting call (\<^verbatim>\<open>snprintf\<close>, \<^verbatim>\<open>vsnprintf\<close>) on a buffer \<open>str\<close> of at
  least \<open>S = unat sz\<close> bytes, whose would-be output \<open>out\<close> has length \<open>L\<close>: it
  faults exactly when the unbounded call does; otherwise the buffer holds the first
  \<open>min L (S - 1)\<close> bytes of \<open>out\<close>, then one terminator, then its old contents,
  when \<open>S > 0\<close>, and is untouched when \<open>S = 0\<close>; the sink has written
  \<open>min L (S - 1)\<close> bytes and records \<open>L\<close> as its logical length. The call itself
  hands back no value: neither body has a \<^verbatim>\<open>return\<close> statement. Enough fuel (more
  than the length of the format string) is assumed, and shown to suffice.
\<close>

theorem bounded_call_writes_prefix:
  assumes fits: "unat sz \<le> length str" and fuel: "length format < fuel"
  shows "case would_be_output fuel m format args of
           None \<Rightarrow> False
         | Some (Inl e) \<Rightarrow>
             vsnprintf fuel (PrintfParser m) w str sz format args = Some (Inl e) \<and>
             snprintf fuel (PrintfParser m) w str sz format args = Some (Inl e)
         | Some (Inr out) \<Rightarrow>
             (\<exists>P. vsnprintf fuel (PrintfParser m) w str sz format args = Some (Inr (w, P, None)) \<and>
                  snprintf fuel (PrintfParser m) w str sz format args = Some (Inr (w, P, None)) \<and>
                  store (sink P) =
                    (if sz = 0 then str
                     else take (min (length out) (unat sz - 1)) out @ [terminator]
                            @ drop (min (length out) (unat sz - 1) + 1) str) \<and>
                  written (sink P) = min (length out) (unat sz - 1) \<and>
                  logical_length (sink P) = length out)"
proof -
  let ?U = "do_printf fuel (PrintfParser m) (FormatParser_new format) format args"
  let ?B = "do_printf fuel (PrintfParser m) (FormatParser_new_with_buf format str (unat sz)) format args"
  from spec_run_returns [OF fuel] obtain tr r where U: "?U = (tr, Some r)" by blast
  note sim = do_printf_twin [OF fits twin_initial, of fuel m format format args]
  show ?thesis
  proof (cases r)
    case (Inl e)
    with U sim have "snd ?B = Some (Inl e)" by simp
    with U Inl show ?thesis
      by (simp add: would_be_output_def vfprintf_def vsnprintf_def snprintf_def del: do_printf.simps)
  next
    case (Inr Pa)
    obtain Pu args' where Pa: "Pa = (Pu, args')" by (cases Pa)
    with U Inr sim obtain Pb where B: "snd ?B = Some (Inr (Pb, args'))"
      and tw: "twin str (unat sz) Pu Pb" by auto
    from tw have m: "mirrors str (unat sz) (sink Pu) (sink Pb)" by (simp add: twin_def)
    have z: "(sz = 0) = (unat sz = 0)" by (simp add: unat_eq_0)
    from m have "store (sink Pb) =
        (if sz = 0 then str
         else take (min (length (store (sink Pu))) (unat sz - 1)) (store (sink Pu)) @ [terminator]
                @ drop (min (length (store (sink Pu))) (unat sz - 1) + 1) str)"
      and "written (sink Pb) = min (length (store (sink Pu))) (unat sz - 1)"
      and "logical_length (sink Pb) = length (store (sink Pu))"
      by (auto simp: mirrors_def z)
    with U Inr Pa B show ?thesis
      by (simp add: would_be_output_def vfprintf_def vsnprintf_def snprintf_def del: do_printf.simps)
  qed
qed

theorem bounded_call_writes_prefix_witness:
  "unat (8 :: size_t) \<le> length (replicate 8 CHR ''.'') \<and>
   length ''key_multi_msgplayer%i'' < (22 :: nat) \<and>
   would_be_output 22 bare_machine ''key_multi_msgplayer%i'' [[3, 0, 0, 0]]
     = Some (Inr ''key_multi_msgplayer3'') \<and>
   (\<exists>P. snprintf 22 (PrintfParser bare_machine) initial_world (replicate 8 CHR ''.'') 8
            ''key_multi_msgplayer%i'' [[3, 0, 0, 0]] = Some (Inr (initial_world, P, None)) \<and>
        store (sink P) = ''key_mul'' @ [terminator] \<and> written (sink P) = 7 \<and>
        logical_length (sink P) = 20)"
proof -
  have fits: "unat (8 :: size_t) \<le> length (replicate 8 CHR ''.'')" by simp
  have fuel: "length ''key_multi_msgplayer%i'' < (22 :: nat)" by simp
  have "(22 :: nat) = Suc (Suc 20)" by simp
  then have out: "would_be_output 22 bare_machine ''key_multi_msgplayer%i'' [[3, 0, 0, 0]]
     = Some (Inr ''key_multi_msgplayer3'')"
    by (simp only: sample_would_be_output)
  from bounded_call_writes_prefix [OF fits fuel, where m = bare_machine and args = "[[3, 0, 0, 0]]" and w = initial_world]
  show ?thesis
    by (simp add: out del: do_printf.simps) (auto simp: fits)
qed

text \<open>
  The claim as stated, that the call returns \<open>L\<close>, fails: on an 8-byte buffer the
  would-be output has 20 bytes, and \<^verbatim>\<open>snprintf\<close> and \<^verbatim>\<open>vsnprintf\<close> hand back no
  value.
\<close>

theorem snprintf_returns_no_length:
  "would_be_output 22 bare_machine ''key_multi_msgplayer%i'' [[3, 0, 0, 0]]
     = Some (Inr ''key_multi_msgplayer3'') \<and>
   returned_value (snprintf 22 (PrintfParser bare_machine) initial_world (replicate 8 CHR ''.'') 8
      ''key_multi_msgplayer%i'' [[3, 0, 0, 0]]) = Some None \<and>
   returned_value (vsnprintf 22 (PrintfParser bare_machine) initial_world (replicate 8 CHR ''.'') 8
      ''key_multi_msgplayer%i'' [[3, 0, 0, 0]]) = Some None \<and>
   (None :: int32 option) \<noteq> Some (of_nat (length ''key_multi_msgplayer3''))"
  by (simp add: sample_would_be_output_22 returned_value_def snprintf_def vsnprintf_def
      sample_new sample_run_22 del: do_printf.simps)

text \<open>
  C3. \<^verbatim>\<open>snprintf\<close> on a 32-byte buffer (filled with \<open>.\<close> as in \<^verbatim>\<open>test_printf\<close>) with
  the format \<^verbatim>\<open>"key_multi_msgplayer%i"\<close> and the argument \<^verbatim>\<open>3\<close>: the buffer holds the
  20 bytes \<^verbatim>\<open>key_multi_msgplayer3\<close>, one terminator and the 11 untouched bytes; the
  sink has written 20 bytes and its logical length is 20; the call hands back no
  value. This holds for every machine, world and fuel of at least two passes.
\<close>

theorem test_printf_snprintf:
  "snprintf (Suc (Suc fuel)) (PrintfParser m) w (replicate 32 CHR ''.'') 32
      ''key_multi_msgplayer%i'' [[3, 0, 0, 0]]
     = Some (Inr (w, sample_end (OutputSink_bounded (replicate 32 CHR ''.'') 32), None)) \<and>
   sink (sample_end (OutputSink_bounded (replicate 32 CHR ''.'') 32)) =
     \<lparr>kind = Bounded 32,
      store = ''key_multi_msgplayer3'' @ [terminator] @ replicate 11 CHR ''.'',
      written = 20, logical_length = 20, truncated = False\<rparr>"
  by (simp add: snprintf_def vsnprintf_def sample_new sample_run sample_bounded_32
      del: do_printf.simps)

text \<open>The claim as stated, that the call returns 20, fails: no value is returned.\<close>

theorem test_printf_snprintf_returns_nothing:
  "returned_value (snprintf 22 (PrintfParser bare_machine) initial_world (replicate 32 CHR ''.'') 32
      ''key_multi_msgplayer%i'' [[3, 0, 0, 0]]) = Some None \<and>
   returned_value (snprintf 22 (PrintfParser bare_machine) initial_world (replicate 32 CHR ''.'') 32
      ''key_multi_msgplayer%i'' [[3, 0, 0, 0]]) \<noteq> Some (Some 20)"
  by (simp add: returned_value_def snprintf_def vsnprintf_def sample_new sample_run_22
      del: do_printf.simps)

text \<open>
  C4. For every format string and argument list the loop of \<^verbatim>\<open>do_printf\<close>, started
  on a fresh parser (bounded or not), ends within \<open>length format + 1\<close> passes
  (the C function is a loop and does not call itself). The number of passes, that
  is of calls of advance, is at most \<open>max 1 (length format)\<close>: at most the length
  of a non-empty format string, and one for the empty one. The number of round
  trips through \<^verbatim>\<open>printf_parser_push_arg\<close> is at most \<open>length format - 1\<close>.
\<close>

theorem do_printf_terminates:
  assumes "P = FormatParser_new format \<or> P = FormatParser_new_with_buf format buf capacity"
    and "length format < fuel"
  shows "snd (do_printf fuel (PrintfParser m) P format args) \<noteq> None \<and>
         passes (fst (do_printf fuel (PrintfParser m) P format args)) \<le> max 1 (length format) \<and>
         round_trips (fst (do_printf fuel (PrintfParser m) P format args)) \<le> length format - 1"
proof -
  from assms(1) have b: "budget P = length format - 1"
    by (auto simp: budget_new)
  with assms(2) have "budget P < fuel" by simp
  from do_printf_budget [OF this, of m format args] b show ?thesis
    by (cases "do_printf fuel (PrintfParser m) P format args") (auto simp del: do_printf.simps)
qed

theorem do_printf_terminates_witness:
  "length ''key_multi_msgplayer%i'' < (22 :: nat) \<and>
   snd (do_printf 22 (PrintfParser bare_machine) (FormatParser_new ''key_multi_msgplayer%i'')
          ''key_multi_msgplayer%i'' [[3, 0, 0, 0]]) \<noteq> None \<and>
   passes (fst (do_printf 22 (PrintfParser bare_machine) (FormatParser_new ''key_multi_msgplayer%i'')
          ''key_multi_msgplayer%i'' [[3, 0, 0, 0]])) \<le> max 1 (length ''key_multi_msgplayer%i'') \<and>
   passes (fst (do_printf 22 (PrintfParser bare_machine) (FormatParser_new ''key_multi_msgplayer%i'')
          ''key_multi_msgplayer%i'' [[3, 0, 0, 0]])) = 2"
proof -
  have fuel: "length ''key_multi_msgplayer%i'' < (22 :: nat)" by simp
  have two: "passes (fst (do_printf 22 (PrintfParser bare_machine)
      (FormatParser_new ''key_multi_msgplayer%i'') ''key_multi_msgplayer%i'' [[3, 0, 0, 0]])) = 2"
    by (simp add: sample_new sample_run_22 del: do_printf.simps)
  from do_printf_terminates [OF disjI1 [OF refl] fuel, of bare_machine "[[3, 0, 0, 0]]"] fuel two
  show ?thesis by blast
qed

text \<open>
  The claim as stated, at most \<open>length format\<close> passes, fails for the empty
  format string: the loop body runs once, calling advance, which returns \<open>0\<close>.
\<close>

theorem empty_format_one_pass:
  "do_printf 1 (PrintfParser bare_machine) (FormatParser_new []) [] [] =
     ([Advance (Some 0)], Some (Inr (FormatParser_new [], []))) \<and>
   passes [Advance (Some 0) :: byte list event] = 1 \<and>
   \<not> passes (fst (do_printf 1 (PrintfParser bare_machine) (FormatParser_new []) [] []))
       \<le> length ([] :: string)"
proof -
  have 1: "pending_directive (FormatParser_new []) = None"
    by (simp add: FormatParser_new_def)
  have 2: "dropWhile (\<lambda>c. c \<noteq> CHR ''%'')
      (drop (cursor (FormatParser_new [])) (format_string (FormatParser_new []))) = []"
    by (simp add: FormatParser_new_def)
  have "FormatParser_advance (FormatParser_new []) = Inr (0, FormatParser_new [])"
    unfolding advance_end [OF 1 2]
    by (simp add: FormatParser_new_def OutputSink_unbounded_def OutputSink_write_def)
  then show ?thesis by simp
qed

text \<open>
  C5. A formatting call raises \<open>ArgumentExhausted\<close> if and only if the parser
  asked for more arguments than the caller supplied: the number of requests
  (advances that returned a non-zero size) exceeds the length of the argument
  list, so the last request was made with every argument consumed. When raised,
  the trace ends with that request and the failed pull: no
  \<^verbatim>\<open>printf_parser_push_arg\<close> and no advance follows, hence no further output. The
  entry points fault with \<open>ArgumentExhausted\<close> exactly when the loop does.
\<close>

theorem ArgumentExhausted_iff:
  assumes "P = FormatParser_new format \<or> P = FormatParser_new_with_buf format buf capacity"
    and "length format < fuel"
  shows "((snd (do_printf fuel (PrintfParser m) P format args) = Some (Inl ArgumentExhausted)) =
            (length args < requests (fst (do_printf fuel (PrintfParser m) P format args)))) \<and>
         (snd (do_printf fuel (PrintfParser m) P format args) = Some (Inl ArgumentExhausted) \<longrightarrow>
            (\<exists>pre n. n \<noteq> 0 \<and>
               fst (do_printf fuel (PrintfParser m) P format args)
                 = pre @ [Advance (Some n), VaArg n None])) \<and>
         ((vfprintf fuel (PrintfParser m) w stream format args = Some (Inl ArgumentExhausted)) =
            (snd (do_printf fuel (PrintfParser m) (FormatParser_new format) format args)
               = Some (Inl ArgumentExhausted))) \<and>
         ((vsnprintf fuel (PrintfParser m) w str sz format args = Some (Inl ArgumentExhausted)) =
            (snd (do_printf fuel (PrintfParser m) (FormatParser_new_with_buf format str (unat sz))
                    format args) = Some (Inl ArgumentExhausted)))"
proof -
  obtain tr out where run: "do_printf fuel (PrintfParser m) P format args = (tr, out)"
    by (cases "do_printf fuel (PrintfParser m) P format args")
  from assms have "budget P < fuel" by (auto simp: budget_new)
  from do_printf_budget [OF this run] have "out \<noteq> None" by simp
  from do_printf_requests [OF run this] run show ?thesis
    by (simp add: spec_calls_fault del: do_printf.simps)
qed

theorem ArgumentExhausted_iff_witness:
  "length ''key_multi_msgplayer%i'' < (22 :: nat) \<and>
   do_printf 22 (PrintfParser bare_machine) (FormatParser_new ''key_multi_msgplayer%i'')
       ''key_multi_msgplayer%i'' []
     = ([Advance (Some 4), VaArg 4 None], Some (Inl ArgumentExhausted)) \<and>
   length ([] :: ArgumentCursor)
     < requests (fst (do_printf 22 (PrintfParser bare_machine)
          (FormatParser_new ''key_multi_msgplayer%i'') ''key_multi_msgplayer%i'' []))"
proof -
  have fuel: "length ''key_multi_msgplayer%i'' < (22 :: nat)" by simp
  have run: "do_printf 22 (PrintfParser bare_machine) (FormatParser_new ''key_multi_msgplayer%i'')
       ''key_multi_msgplayer%i'' []
     = ([Advance (Some 4), VaArg 4 None], Some (Inl ArgumentExhausted))"
    by (simp add: sample_new sample_run_no_args_22 del: do_printf.simps)
  then have "snd (do_printf 22 (PrintfParser bare_machine)
      (FormatParser_new ''key_multi_msgplayer%i'') ''key_multi_msgplayer%i'' [])
        = Some (Inl ArgumentExhausted)"
    by (simp del: do_printf.simps)
  with ArgumentExhausted_iff [OF disjI1 [OF refl] fuel, where m = bare_machine and args = "[]"]
  have "length ([] :: ArgumentCursor)
     < requests (fst (do_printf 22 (PrintfParser bare_machine)
          (FormatParser_new ''key_multi_msgplayer%i'') ''key_multi_msgplayer%i'' []))"
    by blast
  with fuel run show ?thesis by blast
qed

end
